theory Spec2Isabelle
  imports Complex_Main "HOL-Library.Char_ord" "HOL-Library.List_Lexorder"
    "HOL-Library.Multiset" "HOL-Library.AList"
begin

section \<open>Sleep staging pipeline of yasa (staging.py)\<close>

text \<open>
  The class \<^verbatim>\<open>SleepStaging\<close> is embedded function by function. Python exceptions
  are values of \<open>error\<close>; every method returns \<open>error + result\<close> (\<open>Inl\<close> the raised
  exception). Objects that the source shares between the caller and the instance (the
  metadata dict, the data frames, the label array) live in an explicit heap.
\<close>

subsection \<open>Values, errors and the heap\<close>

text \<open>
  A float is an exact real or \<open>None\<close>, which stands for NaN. Rounding is not modelled;
  where numpy would produce an infinity (a nonzero value divided by zero, \<open>log10 0\<close>) the
  model produces \<open>None\<close> as well.
\<close>

type_synonym float = "real option"

datatype pyval = PBool bool | PInt int | PFloat float | PStr string

datatype error =
    AssertionError string
  | ValueError string "string list"
  | TypeError
  | IndexError
  | KeyError string
  | AttributeError string

text \<open>A data frame is the ordered list of its named columns; a dict keeps insertion order.\<close>

type_synonym frame = "(string \<times> pyval list) list"
type_synonym pydict = "(string \<times> pyval) list"

datatype obj = Dict pydict | Frame frame | Array "pyval list"

text \<open>The heap is the list of allocated objects; an address is an index into it.\<close>

type_synonym addr = nat
type_synonym heap = "obj list"

definition alloc :: "heap \<Rightarrow> obj \<Rightarrow> heap \<times> addr" where
  "alloc h ob = (h @ [ob], length h)"

subsection \<open>The classifier and the pipeline instance\<close>

text \<open>
  The classifier is an external artifact (a LightGBM model): its feature names, its
  labels and its two prediction operations are all the pipeline uses.
\<close>

record classifier =
  clf_feature_name :: "string list"
  classes :: "string list"
  clf_predict :: "frame \<Rightarrow> pyval list"
  clf_predict_proba :: "frame \<Rightarrow> float list list"

datatype ch_type = EEG | EOG | EMG

text \<open>
  The attributes of a \<^verbatim>\<open>SleepStaging\<close> instance. \<open>features\<close>, \<open>feature_name\<close>,
  \<open>predicted\<close> and \<open>proba\<close> are \<^verbatim>\<open>_features\<close>, \<^verbatim>\<open>feature_name_\<close>, \<^verbatim>\<open>_predicted\<close>
  and \<^verbatim>\<open>_proba\<close>: \<open>None\<close> while the attribute does not exist (\<^verbatim>\<open>hasattr\<close> is false).
  \<open>metadata\<close> is \<open>None\<close> for Python's \<^verbatim>\<open>None\<close>, else the address of the caller's dict.
\<close>

record SleepStaging =
  sf :: real
  ch_names :: "string list"
  ch_types :: "ch_type list"
  data :: "float list list"
  metadata :: "addr option"
  features :: "addr option"
  feature_name :: "string list option"
  predicted :: "addr option"
  proba :: "addr option"

subsection \<open>Classifier validation\<close>

text \<open>
  \<^verbatim>\<open>np.setdiff1d(ar1, ar2)\<close>: the sorted unique values of \<open>ar1\<close> that are not in \<open>ar2\<close>
  (numpy takes \<^verbatim>\<open>unique(ar1)\<close>, then masks it).
\<close>

definition setdiff1d :: "string list \<Rightarrow> string list \<Rightarrow> string list" where
  "setdiff1d ar1 ar2 = filter (\<lambda>x. x \<notin> set ar2) (sort (remdups ar1))"

definition msg_only_in_clf :: string where
  "msg_only_in_clf =
     ''The following features are present in the classifier but not in the current features set:''"

definition msg_only_in_features :: string where
  "msg_only_in_features =
     ''The following features are present in the current feature set but not in the classifier:''"

text \<open>\<^verbatim>\<open>SleepStaging._validate_predict\<close> (lines 415-428).\<close>

definition validate_predict :: "SleepStaging \<Rightarrow> classifier \<Rightarrow> error + unit" where
  "validate_predict self clf =
     (case feature_name self of
        None \<Rightarrow> Inl (AttributeError ''feature_name_'')
      | Some names \<Rightarrow>
          (let f_diff = setdiff1d (clf_feature_name clf) names in
           if f_diff \<noteq> [] then Inl (ValueError msg_only_in_clf f_diff)
           else
             (let f_diff = setdiff1d names (clf_feature_name clf) in
              if f_diff \<noteq> [] then Inl (ValueError msg_only_in_features f_diff)
              else Inr ())))"

text \<open>
  The names a failed validation reports, and, following the words of the specification,
  the names that are unmatched on either side.
\<close>

fun reported_names :: "error + unit \<Rightarrow> string list option" where
  "reported_names (Inl (ValueError m ns)) = Some ns"
| "reported_names r = None"

definition spec_unmatched :: "string list \<Rightarrow> string list \<Rightarrow> string set" where
  "spec_unmatched required available =
     (set required - set available) \<union> (set available - set required)"

subsection \<open>External collaborators\<close>

text \<open>
  Library routines that the source calls and that are not part of it are parameters of
  the model. The array routines are taken row by row (the source applies them along
  \<^verbatim>\<open>axis=1\<close>): \<open>iqr\<close>, \<open>skew\<close>, \<open>kurtosis\<close> are scipy.stats', \<open>welch_freqs\<close> and
  \<open>welch_psd\<close> the two results of \<^verbatim>\<open>scipy.signal.welch\<close>, \<open>bandpower\<close> is entry
  \<open>[j]\<close> of \<^verbatim>\<open>bandpower_from_psd_ndarray\<close> for one epoch, \<open>perm_entropy\<close> and
  \<open>higuchi_fd\<close> come from the entropy package, \<open>filter_data\<close> and \<open>resample\<close> from
  MNE. \<open>int_of_str\<close> is Python's parsing of an integer literal, \<open>astype_float32\<close> the
  rounding of a double to single precision, \<open>isfile\<close> and \<open>joblib_load\<close> the file
  system and the unpickling of a classifier.
\<close>

record externals =
  int_of_str :: "string \<Rightarrow> int option"
  resample :: "float list \<Rightarrow> real \<Rightarrow> real \<Rightarrow> float list"
  filter_data :: "float list \<Rightarrow> real \<Rightarrow> real \<Rightarrow> real \<Rightarrow> float list"
  iqr :: "float list \<Rightarrow> float"
  skew :: "float list \<Rightarrow> float"
  kurtosis :: "float list \<Rightarrow> float"
  welch_freqs :: "real \<Rightarrow> nat \<Rightarrow> real list"
  welch_psd :: "real \<Rightarrow> nat \<Rightarrow> float list \<Rightarrow> float list"
  bandpower :: "float list \<Rightarrow> real list \<Rightarrow> (real \<times> real \<times> string) list \<Rightarrow> nat \<Rightarrow> float"
  perm_entropy :: "float list \<Rightarrow> float"
  higuchi_fd :: "float list \<Rightarrow> float"
  astype_float32 :: "real \<Rightarrow> real"
  classifiers_dir :: string
  yasa_version :: string
  isfile :: "string \<Rightarrow> bool"
  joblib_load :: "string \<Rightarrow> classifier"

text \<open>An MNE \<^verbatim>\<open>Raw\<close> recording: sampling rate, channel names, one row of samples per channel.\<close>

record raw =
  raw_sfreq :: real
  raw_ch_names :: "string list"
  raw_data :: "float list list"

subsection \<open>Float arithmetic\<close>

definition fadd :: "float \<Rightarrow> float \<Rightarrow> float" where
  "fadd a b = (case (a, b) of (Some x, Some y) \<Rightarrow> Some (x + y) | _ \<Rightarrow> None)"

definition fsub :: "float \<Rightarrow> float \<Rightarrow> float" where
  "fsub a b = (case (a, b) of (Some x, Some y) \<Rightarrow> Some (x - y) | _ \<Rightarrow> None)"

definition fmul :: "float \<Rightarrow> float \<Rightarrow> float" where
  "fmul a b = (case (a, b) of (Some x, Some y) \<Rightarrow> Some (x * y) | _ \<Rightarrow> None)"

definition fdiv :: "float \<Rightarrow> float \<Rightarrow> float" where
  "fdiv a b = (case (a, b) of (Some x, Some y) \<Rightarrow> if y = 0 then None else Some (x / y) | _ \<Rightarrow> None)"

definition fsqrt :: "float \<Rightarrow> float" where
  "fsqrt a = (case a of Some x \<Rightarrow> if x < 0 then None else Some (sqrt x) | None \<Rightarrow> None)"

definition flog10 :: "float \<Rightarrow> float" where
  "flog10 a = (case a of Some x \<Rightarrow> if x \<le> 0 then None else Some (log 10 x) | None \<Rightarrow> None)"

text \<open>A comparison with NaN is false.\<close>

definition flt :: "float \<Rightarrow> float \<Rightarrow> bool" where
  "flt a b = (case (a, b) of (Some x, Some y) \<Rightarrow> x < y | _ \<Rightarrow> False)"

definition fsum :: "float list \<Rightarrow> float" where
  "fsum xs = foldl fadd (Some 0) xs"

definition fmean :: "float list \<Rightarrow> float" where
  "fmean xs = fdiv (fsum xs) (Some (real (length xs)))"

text \<open>\<^verbatim>\<open>x.var(axis=1)\<close> for one row: the mean squared deviation (divisor \<open>n\<close>).\<close>

definition var_row :: "float list \<Rightarrow> float" where
  "var_row xs = (let m = fmean xs in fmean (map (\<lambda>x. fmul (fsub x m) (fsub x m)) xs))"

text \<open>\<^verbatim>\<open>np.std(x, ddof=1, axis=1)\<close> for one row (divisor \<open>n - 1\<close>).\<close>

definition std_ddof1_row :: "float list \<Rightarrow> float" where
  "std_ddof1_row xs =
     (let m = fmean xs in
      fsqrt (fdiv (fsum (map (\<lambda>x. fmul (fsub x m) (fsub x m)) xs))
                  (Some (real (length xs) - 1))))"

text \<open>\<^verbatim>\<open>np.diff(x, axis=1)\<close> for one row: \<^verbatim>\<open>x[1:] - x[:-1]\<close>.\<close>

definition diff_row :: "float list \<Rightarrow> float list" where
  "diff_row xs = map2 fsub (tl xs) (butlast xs)"

definition diff :: "float list list \<Rightarrow> float list list" where
  "diff x = map diff_row x"

text \<open>\<^verbatim>\<open>x.shape[1]\<close> of a two-dimensional array given by its rows (all of one length).\<close>

definition shape1 :: "'a list list \<Rightarrow> nat" where
  "shape1 x = (case x of [] \<Rightarrow> 0 | r # _ \<Rightarrow> length r)"

text \<open>\<^verbatim>\<open>np.trapz(y, dx=dx)\<close> along the last axis, for one row.\<close>

definition trapz :: "float list \<Rightarrow> real \<Rightarrow> float" where
  "trapz ys dx =
     fsum (map2 (\<lambda>a b. fmul (Some dx) (fdiv (fadd a b) (Some 2))) (butlast ys) (tl ys))"

subsection \<open>The helper functions of fit\<close>

text \<open>\<^verbatim>\<open>nzc\<close> (lines 276-278), for one row and for the array.\<close>

definition nzc_row :: "float list \<Rightarrow> nat" where
  "nzc_row xs = length (filter (\<lambda>p. flt p (Some 0)) (map2 fmul (butlast xs) (tl xs)))"

definition nzc :: "float list list \<Rightarrow> nat list" where
  "nzc x = map nzc_row x"

text \<open>\<^verbatim>\<open>mobility\<close> (lines 280-282).\<close>

definition mobility :: "float list list \<Rightarrow> float list" where
  "mobility x = map2 (\<lambda>a b. fsqrt (fdiv a b)) (map var_row (diff x)) (map var_row x)"

text \<open>\<^verbatim>\<open>petrosian\<close> (lines 284-289).\<close>

definition petrosian :: "float list list \<Rightarrow> float list" where
  "petrosian x =
     (let n = shape1 x;
          ln10 = flog10 (Some (real n));
          d = diff x
      in map (\<lambda>k. fdiv ln10
                    (fadd ln10 (flog10 (fdiv (Some (real n)) (Some (real n + 0.4 * real k))))))
             (nzc d))"

subsection \<open>The constructor\<close>

text \<open>Python's \<^verbatim>\<open>int(v)\<close>: truncation toward zero for a float, an error for NaN.\<close>

definition py_int :: "externals \<Rightarrow> pyval \<Rightarrow> error + int" where
  "py_int ext v =
     (case v of
        PBool b \<Rightarrow> Inr (if b then 1 else 0)
      | PInt i \<Rightarrow> Inr i
      | PFloat None \<Rightarrow> Inl (ValueError ''cannot convert float NaN to integer'' [])
      | PFloat (Some r) \<Rightarrow> Inr (if 0 \<le> r then \<lfloor>r\<rfloor> else \<lceil>r\<rceil>)
      | PStr s \<Rightarrow>
          (case int_of_str ext s of
             None \<Rightarrow> Inl (ValueError ''invalid literal for int()'' [s])
           | Some i \<Rightarrow> Inr i))"

text \<open>The number a value compares as; a string does not compare with a number.\<close>

definition py_num :: "pyval \<Rightarrow> float option" where
  "py_num v =
     (case v of
        PBool b \<Rightarrow> Some (Some (if b then 1 else 0))
      | PInt i \<Rightarrow> Some (Some (real_of_int i))
      | PFloat f \<Rightarrow> Some f
      | PStr s \<Rightarrow> None)"

text \<open>
  Lines 203-209: the validation of the metadata dict at address \<open>a\<close>. The assignment
  \<^verbatim>\<open>metadata['male'] = int(metadata['male'])\<close> writes into the caller's dict, before the
  assertion on the coerced value.
\<close>

definition validate_metadata :: "externals \<Rightarrow> heap \<Rightarrow> addr \<Rightarrow> heap \<times> (error + unit)" where
  "validate_metadata ext h a =
     (if length h \<le> a then (h, Inl (AssertionError []))
      else case h ! a of
        Dict d \<Rightarrow>
          (case (case map_of d ''age'' of
                   None \<Rightarrow> Inr ()
                 | Some v \<Rightarrow>
                     (case py_num v of
                        None \<Rightarrow> Inl TypeError
                      | Some x \<Rightarrow>
                          if flt (Some 0) x \<and> flt x (Some 120) then Inr ()
                          else Inl (AssertionError ''age must be between 0 and 120.''))) of
             Inl e \<Rightarrow> (h, Inl e)
           | Inr u \<Rightarrow>
               (case map_of d ''male'' of
                  None \<Rightarrow> (h, Inr ())
                | Some v \<Rightarrow>
                    (case py_int ext v of
                       Inl e \<Rightarrow> (h, Inl e)
                     | Inr m \<Rightarrow>
                         (let h' = h[a := Dict (AList.update ''male'' (PInt m) d)] in
                          if m = 0 \<or> m = 1 then (h', Inr ())
                          else (h', Inl (AssertionError ''male must be 0 or 1.''))))))
      | _ \<Rightarrow> (h, Inl (AssertionError [])))"

text \<open>Lines 217-222: every channel name that is given must exist in the recording.\<close>

fun check_channels :: "raw \<Rightarrow> string option list \<Rightarrow> error + bool list" where
  "check_channels r [] = Inr []"
| "check_channels r (None # cs) =
     (case check_channels r cs of Inl e \<Rightarrow> Inl e | Inr ks \<Rightarrow> Inr (False # ks))"
| "check_channels r (Some c # cs) =
     (if c \<in> set (raw_ch_names r)
      then (case check_channels r cs of Inl e \<Rightarrow> Inl e | Inr ks \<Rightarrow> Inr (True # ks))
      else Inl (AssertionError (c @ '' does not exist'')))"

text \<open>\<^verbatim>\<open>array[keep_chan].tolist()\<close>: the entries at the positions marked true.\<close>

definition mask :: "'a list \<Rightarrow> bool list \<Rightarrow> 'a list" where
  "mask xs ks = map fst (filter snd (zip xs ks))"

text \<open>\<^verbatim>\<open>raw.copy().pick_channels(ch_names, ordered=True)\<close>: the rows of the named channels.\<close>

definition pick_channels :: "raw \<Rightarrow> string list \<Rightarrow> float list list" where
  "pick_channels r names =
     map (\<lambda>c. case map_of (zip (raw_ch_names r) (raw_data r)) c of Some row \<Rightarrow> row | None \<Rightarrow> [])
         names"

text \<open>\<^verbatim>\<open>SleepStaging.__init__\<close> (lines 194-247), after the metadata validation.\<close>

definition init_raw ::
  "externals \<Rightarrow> raw \<Rightarrow> string \<Rightarrow> string option \<Rightarrow> string option \<Rightarrow> addr option
     \<Rightarrow> error + SleepStaging" where
  "init_raw ext r eeg_name eog_name emg_name md =
     (let sfreq = raw_sfreq r in
      case check_channels r [Some eeg_name, eog_name, emg_name] of
        Inl e \<Rightarrow> Inl e
      | Inr keep_chan \<Rightarrow>
          (let names = map the (mask [Some eeg_name, eog_name, emg_name] keep_chan);
               types = mask [EEG, EOG, EMG] keep_chan;
               raw_pick = pick_channels r names
           in if \<not> sfreq > 80 then Inl (AssertionError ''Sampling frequency must be at least 80 Hz.'')
              else
                (let resampled = (if sfreq \<noteq> 100 then map (\<lambda>x. resample ext x sfreq 100) raw_pick
                                  else raw_pick);
                     sfreq = (if sfreq \<noteq> 100 then 100 else sfreq);
                     dat = map (map (fmul (Some 1000000))) resampled;
                     duration_minutes = real (shape1 dat) / sfreq / 60
                 in if \<not> duration_minutes \<ge> 5
                    then Inl (AssertionError ''At least 5 minutes of data is required.'')
                    else Inr \<lparr> sf = sfreq, ch_names = names, ch_types = types, data = dat,
                               metadata = md, features = None, feature_name = None,
                               predicted = None, proba = None \<rparr>)))"

definition init ::
  "externals \<Rightarrow> heap \<Rightarrow> raw \<Rightarrow> string \<Rightarrow> string option \<Rightarrow> string option \<Rightarrow> addr option
     \<Rightarrow> heap \<times> (error + SleepStaging)" where
  "init ext h r eeg_name eog_name emg_name md =
     (case md of
        None \<Rightarrow> (h, init_raw ext r eeg_name eog_name emg_name md)
      | Some a \<Rightarrow>
          (case validate_metadata ext h a of
             (h', Inl e) \<Rightarrow> (h', Inl e)
           | (h', Inr u) \<Rightarrow> (h', init_raw ext r eeg_name eog_name emg_name md)))"

subsection \<open>Epoching\<close>

text \<open>
  Modelled from the spec: \<^verbatim>\<open>sliding_window\<close> of \<^verbatim>\<open>yasa.others\<close> is not among the
  sources. Section 4.1: non-overlapping slices of the configured duration, trailing
  samples that do not fill an epoch dropped. \<open>chunks m k xs\<close> are the first \<open>k\<close> slices
  of \<open>m\<close> samples.
\<close>

fun chunks :: "nat \<Rightarrow> nat \<Rightarrow> 'a list \<Rightarrow> 'a list list" where
  "chunks m 0 xs = []"
| "chunks m (Suc k) xs = take m xs # chunks m k (drop m xs)"

text \<open>
  Modelled from the spec: \<^verbatim>\<open>sliding_window(data, sf, window)\<close> of \<^verbatim>\<open>yasa.others\<close>,
  section 4.1: the start time in seconds of each epoch and the epochs, \<open>window * sf\<close>
  samples each.
\<close>

definition sliding_window :: "float list \<Rightarrow> real \<Rightarrow> real \<Rightarrow> real list \<times> float list list" where
  "sliding_window x sfreq window =
     (let m = nat \<lfloor>window * sfreq\<rfloor>;
          n_epochs = (if m = 0 then 0 else length x div m)
      in (map (\<lambda>i. real i * window) [0..<n_epochs], chunks m n_epochs x))"

subsection \<open>Rolling means and robust scaling\<close>

text \<open>
  The rolling means are pandas' and the scaling is scikit-learn's; neither is among the
  sources. Section 4.4 of the specification gives the windows, the weights, the minimum
  number of valid samples and the scaling by the median and a percentile range.
\<close>

text \<open>
  Modelled from the spec: \<^verbatim>\<open>scipy.signal.windows.triang(m)\<close>, the triangular weights
  of section 4.4; for \<open>m = 11\<close> they are the weights listed in the comment at line 360.
\<close>

definition triang :: "nat \<Rightarrow> real list" where
  "triang m =
     (if odd m
      then (let w = map (\<lambda>n. 2 * real n / (real m + 1)) [1..<(m + 1) div 2 + 1]
            in w @ tl (rev w))
      else (let w = map (\<lambda>n. (2 * real n - 1) / real m) [1..<m div 2 + 1]
            in w @ rev w))"

text \<open>
  Modelled from the spec: the samples under a rolling window (section 4.4). The window
  of \<open>length w\<close> weights starts \<open>back\<close> places before position \<open>i\<close>; each sample comes
  with its weight, and positions outside the series are left out.
\<close>

definition window_at :: "real list \<Rightarrow> nat \<Rightarrow> float list \<Rightarrow> nat \<Rightarrow> (real \<times> float) list" where
  "window_at w back xs i =
     map (\<lambda>k. (w ! k, xs ! (i + k - back)))
         (filter (\<lambda>k. back \<le> i + k \<and> i + k - back < length xs) [0..<length w])"

text \<open>
  Modelled from the spec: the mean of one window (section 4.4), the weighted mean of its
  valid samples; NaN when fewer than \<open>minp\<close> samples are valid.
\<close>

definition weighted_mean :: "nat \<Rightarrow> (real \<times> float) list \<Rightarrow> float" where
  "weighted_mean minp ps =
     (let valid = map (\<lambda>p. (fst p, the (snd p))) (filter (\<lambda>p. snd p \<noteq> None) ps);
          tot = sum_list (map fst valid)
      in if length valid < max minp 1 \<or> tot = 0 then None
         else Some (sum_list (map (\<lambda>p. fst p * snd p) valid) / tot))"

text \<open>
  Modelled from the spec: pandas'
  \<^verbatim>\<open>rolling(window, center, min_periods, win_type).mean()\<close> on one column (section 4.4).
  Without \<^verbatim>\<open>win_type\<close> all weights are one; the window ends at the current position,
  and a centered window is shifted forward by \<open>(window - 1) div 2\<close> places.
\<close>

definition rolling_mean :: "nat \<Rightarrow> bool \<Rightarrow> nat \<Rightarrow> real list option \<Rightarrow> float list \<Rightarrow> float list" where
  "rolling_mean window center min_periods win_type xs =
     (let w = (case win_type of None \<Rightarrow> replicate window 1 | Some ws \<Rightarrow> ws);
          back = window - 1 - (if center then (window - 1) div 2 else 0)
      in map (\<lambda>i. weighted_mean min_periods (window_at w back xs i)) [0..<length xs])"

text \<open>
  Modelled from the spec: the percentile of section 4.4, as \<^verbatim>\<open>np.nanpercentile\<close> takes
  it of the valid samples (linear interpolation between the two nearest ranks). The
  list is not empty and \<open>0 \<le> q \<le> 100\<close> wherever it is used.
\<close>

definition percentile :: "real \<Rightarrow> real list \<Rightarrow> real" where
  "percentile q vs =
     (let s = sort vs;
          pos = q / 100 * real (length s - 1);
          lo = nat \<lfloor>pos\<rfloor>;
          hi = min (lo + 1) (length s - 1)
      in s ! lo + (pos - real lo) * (s ! hi - s ! lo))"

text \<open>
  Modelled from the spec: the median of section 4.4, as \<^verbatim>\<open>np.nanmedian\<close> takes it of
  the valid samples (of a list that is not empty).
\<close>

definition median :: "real list \<Rightarrow> real" where
  "median vs =
     (let s = sort vs; n = length s
      in if odd n then s ! (n div 2) else (s ! (n div 2 - 1) + s ! (n div 2)) / 2)"

text \<open>The samples of a column that are not NaN.\<close>

definition valid_samples :: "float list \<Rightarrow> real list" where
  "valid_samples xs = map the (filter (\<lambda>x. x \<noteq> None) xs)"

text \<open>
  Modelled from the spec: scikit-learn's \<^verbatim>\<open>robust_scale(X, quantile_range=(lo, hi))\<close> on
  one column, the rescaling by the median and the percentile range of section 4.4. NaN
  entries are ignored when the median and the percentiles are taken and stay NaN; a
  percentile range of zero is replaced by one, as scikit-learn's scalers do.
\<close>

definition robust_scale :: "real \<times> real \<Rightarrow> float list \<Rightarrow> float list" where
  "robust_scale quantile_range xs =
     (let vs = valid_samples xs in
      if vs = [] then xs
      else
        (let center = median vs;
             scale = percentile (snd quantile_range) vs - percentile (fst quantile_range) vs;
             scale = (if scale = 0 then 1 else scale)
         in map (map_option (\<lambda>x. (x - center) / scale)) xs))"

subsection \<open>Feature extraction\<close>

definition bands :: "(real \<times> real \<times> string) list" where
  "bands = [(0.4, 1, ''sdelta''), (1, 4, ''fdelta''), (4, 8, ''theta''),
            (8, 12, ''alpha''), (12, 16, ''sigma''), (16, 30, ''beta'')]"

fun ch_type_name :: "ch_type \<Rightarrow> string" where
  "ch_type_name EEG = ''eeg''"
| "ch_type_name EOG = ''eog''"
| "ch_type_name EMG = ''emg''"

text \<open>The float a numeric cell holds (an integer column is read as floats).\<close>

fun to_float :: "pyval \<Rightarrow> float" where
  "to_float (PFloat f) = f"
| "to_float (PInt i) = Some (real_of_int i)"
| "to_float (PBool b) = Some (if b then 1 else 0)"
| "to_float (PStr s) = None"

text \<open>\<^verbatim>\<open>feat[k]\<close> read as a float array; the source reads only keys it has just stored.\<close>

definition fcol :: "frame \<Rightarrow> string \<Rightarrow> float list" where
  "fcol feat k = (case map_of feat k of Some col \<Rightarrow> map to_float col | None \<Rightarrow> [])"

text \<open>
  The body of the loop over the channels (lines 298-349), section by section; \<open>feat\<close> is
  the dict of feature arrays that the sections fill in turn. First the descriptive
  statistics (lines 306-317).
\<close>

definition descriptive_features :: "externals \<Rightarrow> float list list \<Rightarrow> frame" where
  "descriptive_features ext epochs =
     (let hmob = mobility epochs
      in [(''std'', map (\<lambda>e. PFloat (std_ddof1_row e)) epochs),
          (''iqr'', map (\<lambda>e. PFloat (iqr ext e)) epochs),
          (''skew'', map (\<lambda>e. PFloat (skew ext e)) epochs),
          (''kurt'', map (\<lambda>e. PFloat (kurtosis ext e)) epochs),
          (''nzc'', map (\<lambda>k. PInt (int k)) (nzc epochs)),
          (''hmob'', map PFloat hmob),
          (''hcomp'', map PFloat (map2 fdiv (mobility (diff epochs)) hmob))])"

text \<open>The spectral power of each band, for EEG and EOG (lines 319-324).\<close>

definition spectral_features ::
  "externals \<Rightarrow> ch_type \<Rightarrow> float list list \<Rightarrow> real list \<Rightarrow> frame \<Rightarrow> frame" where
  "spectral_features ext c psd freqs feat =
     (if c \<noteq> EMG
      then foldl (\<lambda>f (j, (lo, hi, b)).
                    AList.update b (map (\<lambda>p. PFloat (bandpower ext p freqs bands j)) psd) f)
                 feat (enumerate 0 bands)
      else feat)"

text \<open>The power ratios, for EEG (lines 326-332).\<close>

definition power_ratios :: "ch_type \<Rightarrow> frame \<Rightarrow> frame" where
  "power_ratios c feat =
     (if c = EEG
      then (let delta = map2 fadd (fcol feat ''sdelta'') (fcol feat ''fdelta'');
                feat = AList.update ''dt'' (map PFloat (map2 fdiv delta (fcol feat ''theta''))) feat;
                feat = AList.update ''ds'' (map PFloat (map2 fdiv delta (fcol feat ''sigma''))) feat;
                feat = AList.update ''db'' (map PFloat (map2 fdiv delta (fcol feat ''beta''))) feat;
                feat = AList.update ''at''
                         (map PFloat (map2 fdiv (fcol feat ''alpha'') (fcol feat ''theta''))) feat
            in feat)
      else feat)"

text \<open>Total power, entropy and fractal dimensions (lines 334-345).\<close>

definition nonlinear_features ::
  "externals \<Rightarrow> float list list \<Rightarrow> float list list \<Rightarrow> real list \<Rightarrow> real \<Rightarrow> frame \<Rightarrow> frame" where
  "nonlinear_features ext epochs psd freqs dx feat =
     (let idx_broad = map (\<lambda>f. 0.4 \<le> f \<and> f \<le> 30) freqs;
          feat = AList.update ''abspow'' (map (\<lambda>p. PFloat (trapz (mask p idx_broad) dx)) psd) feat;
          feat = AList.update ''perm'' (map (\<lambda>e. PFloat (perm_entropy ext e)) epochs) feat;
          feat = AList.update ''higuchi'' (map (\<lambda>e. PFloat (higuchi_fd ext e)) epochs) feat;
          feat = AList.update ''petrosian'' (map PFloat (petrosian epochs)) feat
      in feat)"

text \<open>\<^verbatim>\<open>DataFrame.add_prefix\<close>.\<close>

definition add_prefix :: "string \<Rightarrow> frame \<Rightarrow> frame" where
  "add_prefix pfx f = map (\<lambda>(k, col). (pfx @ k, col)) f"

text \<open>
  The whole body for one channel of type \<open>c\<close> with samples \<open>x\<close>: the epoch start times
  and the channel's feature table. \<^verbatim>\<open>freqs[1] - freqs[0]\<close> needs two frequencies.
\<close>

definition channel_features ::
  "externals \<Rightarrow> real \<Rightarrow> ch_type \<Rightarrow> float list \<Rightarrow> error + (real list \<times> frame)" where
  "channel_features ext sfreq c x =
     (let win = nat \<lfloor>5 * sfreq\<rfloor>;
          dt_filt = filter_data ext x sfreq 0.4 30;
          (etimes, epochs) = sliding_window dt_filt sfreq 30;
          feat = descriptive_features ext epochs;
          freqs = welch_freqs ext sfreq win;
          psd = map (welch_psd ext sfreq win) epochs;
          feat = spectral_features ext c psd freqs feat;
          feat = power_ratios c feat
      in case freqs of
           f0 # f1 # fs \<Rightarrow>
             (let dx = f1 - f0;
                  feat = nonlinear_features ext epochs psd freqs dx feat
              in Inr (etimes, add_prefix (ch_type_name c @ ''_'') feat))
         | _ \<Rightarrow> Inl IndexError)"

text \<open>
  The loop itself (line 297): \<open>etimes\<close> (the source's \<^verbatim>\<open>times\<close>) keeps the value of the last iteration, the tables
  are collected in order.
\<close>

fun calculate_features ::
  "externals \<Rightarrow> SleepStaging \<Rightarrow> (nat \<times> ch_type) list \<Rightarrow> real list \<times> frame list
     \<Rightarrow> error + (real list \<times> frame list)" where
  "calculate_features ext self [] acc = Inr acc"
| "calculate_features ext self ((i, c) # rest) (etimes, feats) =
     (if length (data self) \<le> i then Inl IndexError
      else case channel_features ext (sf self) c (data self ! i) of
             Inl e \<Rightarrow> Inl e
           | Inr (etimes_c, feat) \<Rightarrow> calculate_features ext self rest (etimes_c, feats @ [feat]))"

subsection \<open>Data frame operations\<close>

definition nrows :: "frame \<Rightarrow> nat" where
  "nrows f = (case f of [] \<Rightarrow> 0 | (k, col) # _ \<Rightarrow> length col)"

text \<open>
  \<^verbatim>\<open>pd.concat(features, axis=1)\<close>: the columns side by side; a shorter table is filled
  with NaN (its columns become float columns).
\<close>

definition pad :: "nat \<Rightarrow> pyval list \<Rightarrow> pyval list" where
  "pad n col =
     (if length col < n then map (\<lambda>v. PFloat (to_float v)) col @ replicate (n - length col) (PFloat None)
      else col)"

definition concat_frames :: "frame list \<Rightarrow> error + frame" where
  "concat_frames fs =
     (if fs = [] then Inl (ValueError ''No objects to concatenate'' [])
      else (let n = foldr max (map (\<lambda>kc. length (snd kc)) (concat fs)) 0
            in Inr (map (\<lambda>(k, col). (k, pad n col)) (concat fs))))"

text \<open>\<^verbatim>\<open>left.join(right)\<close> on equal indexes: overlapping column names are an error.\<close>

definition join :: "frame \<Rightarrow> frame \<Rightarrow> error + frame" where
  "join l r =
     (let both = filter (\<lambda>k. k \<in> set (map fst r)) (map fst l) in
      if both \<noteq> [] then Inl (ValueError ''columns overlap but no suffix specified'' both)
      else Inr (l @ r))"

definition add_suffix :: "string \<Rightarrow> frame \<Rightarrow> frame" where
  "add_suffix sfx f = map (\<lambda>(k, col). (k @ sfx, col)) f"

text \<open>Smoothing and normalization (lines 355-372).\<close>

definition smooth :: "frame \<Rightarrow> error + frame" where
  "smooth feats =
     (let rollc = map (\<lambda>(k, col). (k, map PFloat (robust_scale (5, 95)
                         (rolling_mean 11 True 1 (Some (triang 11)) (map to_float col))))) feats;
          rollc = add_suffix ''_c5min_norm'' rollc;
          rollp = map (\<lambda>(k, col). (k, map PFloat (robust_scale (5, 95)
                         (rolling_mean 10 False 1 None (map to_float col))))) feats;
          rollp = add_suffix ''_p5min_norm'' rollp
      in case join feats rollc of
           Inl e \<Rightarrow> Inl e
         | Inr f \<Rightarrow> join f rollp)"

text \<open>Temporal and metadata features, type normalization and column order (lines 378-397).\<close>

fun is_float64 :: "pyval \<Rightarrow> bool" where
  "is_float64 (PFloat f) = True"
| "is_float64 v = False"

definition downcast_column :: "externals \<Rightarrow> pyval list \<Rightarrow> pyval list" where
  "downcast_column ext col =
     (if list_all is_float64 col
      then map (\<lambda>v. PFloat (map_option (astype_float32 ext) (to_float v))) col
      else col)"

definition downcast :: "externals \<Rightarrow> frame \<Rightarrow> frame" where
  "downcast ext f = map (\<lambda>(k, col). (k, downcast_column ext col)) f"

fun astype_int :: "externals \<Rightarrow> pyval list \<Rightarrow> error + pyval list" where
  "astype_int ext [] = Inr []"
| "astype_int ext (v # vs) =
     (case py_int ext v of
        Inl e \<Rightarrow> Inl e
      | Inr i \<Rightarrow> (case astype_int ext vs of Inl e \<Rightarrow> Inl e | Inr is \<Rightarrow> Inr (PInt i # is)))"

definition column_astype_int :: "externals \<Rightarrow> string \<Rightarrow> frame \<Rightarrow> error + frame" where
  "column_astype_int ext k f =
     (case map_of f k of
        None \<Rightarrow> Inr f
      | Some col \<Rightarrow> (case astype_int ext col of Inl e \<Rightarrow> Inl e | Inr col' \<Rightarrow> Inr (AList.update k col' f)))"

definition sort_index :: "frame \<Rightarrow> frame" where
  "sort_index f = sort_key fst f"

definition add_metadata :: "heap \<Rightarrow> SleepStaging \<Rightarrow> frame \<Rightarrow> error + frame" where
  "add_metadata h self f =
     (case metadata self of
        None \<Rightarrow> Inr f
      | Some a \<Rightarrow>
          (if length h \<le> a then Inl TypeError
           else case h ! a of
                  Dict d \<Rightarrow> Inr (foldl (\<lambda>g (c, v). AList.update c (replicate (nrows f) v) g) f d)
                | _ \<Rightarrow> Inl TypeError))"

definition finalize ::
  "externals \<Rightarrow> heap \<Rightarrow> SleepStaging \<Rightarrow> real list \<Rightarrow> frame \<Rightarrow> error + frame" where
  "finalize ext h self etimes feats =
     (if length etimes \<noteq> nrows feats
      then Inl (ValueError ''Length of values does not match length of index'' [])
      else
        (let f1 = AList.update ''time_hour'' (map (\<lambda>t. PFloat (Some (t / 3600))) etimes) feats in
         if etimes = [] then Inl IndexError
         else
           (let f2 = AList.update ''time_norm''
                       (map (\<lambda>t. PFloat (fdiv (Some t) (Some (last etimes)))) etimes) f1
            in case add_metadata h self f2 of
                 Inl e \<Rightarrow> Inl e
               | Inr f3 \<Rightarrow>
                   (case column_astype_int ext ''age'' (downcast ext f3) of
                      Inl e \<Rightarrow> Inl e
                    | Inr f4 \<Rightarrow>
                        (case column_astype_int ext ''male'' f4 of
                           Inl e \<Rightarrow> Inl e
                         | Inr f5 \<Rightarrow> Inr (sort_index f5))))))"

text \<open>\<^verbatim>\<open>SleepStaging.fit\<close> (lines 249-401): the table it computes, then the method.\<close>

definition fit_features :: "externals \<Rightarrow> heap \<Rightarrow> SleepStaging \<Rightarrow> error + frame" where
  "fit_features ext h self =
     (case calculate_features ext self (enumerate 0 (ch_types self)) ([], []) of
        Inl e \<Rightarrow> Inl e
      | Inr (etimes, fs) \<Rightarrow>
          (case concat_frames fs of
             Inl e \<Rightarrow> Inl e
           | Inr feats \<Rightarrow>
               (case smooth feats of
                  Inl e \<Rightarrow> Inl e
                | Inr sm \<Rightarrow> finalize ext h self etimes sm)))"

text \<open>
  A method runs on the heap and the instance and returns both, updated, with its result:
  an exception leaves the attributes that were already assigned in place.
\<close>

type_synonym 'a outcome = "heap \<times> SleepStaging \<times> (error + 'a)"

definition fit :: "externals \<Rightarrow> heap \<Rightarrow> SleepStaging \<Rightarrow> unit outcome" where
  "fit ext h self =
     (case fit_features ext h self of
        Inl e \<Rightarrow> (h, self, Inl e)
      | Inr f \<Rightarrow>
          (let (h', a) = alloc h (Frame f)
           in (h', self\<lparr>features := Some a, feature_name := Some (map fst f)\<rparr>, Inr ())))"

subsection \<open>Prediction\<close>

text \<open>\<^verbatim>\<open>obj.copy()\<close> of the frame or array at an address: a new object with the same content.\<close>

definition copy_frame :: "heap \<Rightarrow> SleepStaging \<Rightarrow> string \<Rightarrow> addr option \<Rightarrow> addr outcome" where
  "copy_frame h self attr p =
     (case p of
        None \<Rightarrow> (h, self, Inl (AttributeError attr))
      | Some a \<Rightarrow>
          (if length h \<le> a then (h, self, Inl (AttributeError attr))
           else case h ! a of
                  Frame f \<Rightarrow> (let (h', r) = alloc h (Frame f) in (h', self, Inr r))
                | Array v \<Rightarrow> (let (h', r) = alloc h (Array v) in (h', self, Inr r))
                | _ \<Rightarrow> (h, self, Inl (AttributeError attr))))"

text \<open>\<^verbatim>\<open>SleepStaging.get_features\<close> (lines 403-413).\<close>

definition get_features :: "externals \<Rightarrow> heap \<Rightarrow> SleepStaging \<Rightarrow> addr outcome" where
  "get_features ext h self =
     (case (if features self = None then fit ext h self else (h, self, Inr ())) of
        (h1, self1, Inl e) \<Rightarrow> (h1, self1, Inl e)
      | (h1, self1, Inr u) \<Rightarrow> copy_frame h1 self1 ''_features'' (features self1))"

text \<open>\<^verbatim>\<open>SleepStaging._load_model\<close> (lines 430-448).\<close>

definition load_model :: "externals \<Rightarrow> SleepStaging \<Rightarrow> string \<Rightarrow> error + classifier" where
  "load_model ext self path_to_model =
     (let path =
            (if path_to_model = ''auto''
             then (let name = ''clf_eeg'';
                       name = (if EOG \<in> set (ch_types self) then name @ ''+eog'' else name);
                       name = (if EMG \<in> set (ch_types self) then name @ ''+emg'' else name);
                       name = (if metadata self \<noteq> None then name @ ''+demo'' else name)
                   in classifiers_dir ext @ name @ ''_lgb_'' @ yasa_version ext @ ''.joblib'')
             else path_to_model)
      in if \<not> isfile ext path then Inl (AssertionError ''File does not exist.'')
         else (let clf = joblib_load ext path
               in case validate_predict self clf of Inl e \<Rightarrow> Inl e | Inr u \<Rightarrow> Inr clf))"

text \<open>\<^verbatim>\<open>df[names]\<close>: the named columns in the order asked for.\<close>

definition project :: "frame \<Rightarrow> string list \<Rightarrow> error + frame" where
  "project f names =
     (case filter (\<lambda>n. map_of f n = None) names of
        [] \<Rightarrow> Inr (map (\<lambda>n. (n, case map_of f n of Some col \<Rightarrow> col | None \<Rightarrow> [])) names)
      | m # ms \<Rightarrow> Inl (KeyError m))"

text \<open>\<^verbatim>\<open>pd.DataFrame(matrix, columns=labels)\<close>: one column per label.\<close>

definition frame_of_matrix :: "float list list \<Rightarrow> string list \<Rightarrow> error + frame" where
  "frame_of_matrix m labels =
     (if list_all (\<lambda>row. length row = length labels) m
      then Inr (map (\<lambda>(j, l). (l, map (\<lambda>row. PFloat (row ! j)) m)) (enumerate 0 labels))
      else Inl (ValueError ''Shape of passed values does not match the columns'' []))"

text \<open>\<^verbatim>\<open>SleepStaging.predict\<close> (lines 450-480).\<close>

definition predict :: "externals \<Rightarrow> heap \<Rightarrow> SleepStaging \<Rightarrow> string \<Rightarrow> addr outcome" where
  "predict ext h self path_to_model =
     (case (if features self = None then fit ext h self else (h, self, Inr ())) of
        (h1, self1, Inl e) \<Rightarrow> (h1, self1, Inl e)
      | (h1, self1, Inr u) \<Rightarrow>
          (case load_model ext self1 path_to_model of
             Inl e \<Rightarrow> (h1, self1, Inl e)
           | Inr clf \<Rightarrow>
               (case (case features self1 of
                        None \<Rightarrow> Inl (AttributeError ''_features'')
                      | Some a \<Rightarrow>
                          (if length h1 \<le> a then Inl (AttributeError ''_features'')
                           else case h1 ! a of
                                  Frame f \<Rightarrow> project f (clf_feature_name clf)
                                | _ \<Rightarrow> Inl (AttributeError ''_features''))) of
                  Inl e \<Rightarrow> (h1, self1, Inl e)
                | Inr X \<Rightarrow>
                    (let (h2, p) = alloc h1 (Array (clf_predict clf X));
                         self2 = self1\<lparr>predicted := Some p\<rparr>
                     in case frame_of_matrix (clf_predict_proba clf X) (classes clf) of
                          Inl e \<Rightarrow> (h2, self2, Inl e)
                        | Inr pr \<Rightarrow>
                            (let (h3, q) = alloc h2 (Frame pr);
                                 self3 = self2\<lparr>proba := Some q\<rparr>
                             in copy_frame h3 self3 ''_predicted'' (predicted self3))))))"

text \<open>\<^verbatim>\<open>SleepStaging.predict_proba\<close> (lines 482-505).\<close>

definition predict_proba :: "externals \<Rightarrow> heap \<Rightarrow> SleepStaging \<Rightarrow> string \<Rightarrow> addr outcome" where
  "predict_proba ext h self path_to_model =
     (case (if proba self = None
            then (case predict ext h self path_to_model of
                    (h1, self1, Inl e) \<Rightarrow> (h1, self1, Inl e)
                  | (h1, self1, Inr r) \<Rightarrow> (h1, self1, Inr ()))
            else (h, self, Inr ())) of
        (h1, self1, Inl e) \<Rightarrow> (h1, self1, Inl e)
      | (h1, self1, Inr u) \<Rightarrow> copy_frame h1 self1 ''_proba'' (proba self1))"

subsection \<open>The smoothed columns in the words of the specification\<close>

text \<open>
  A windowed mean by position: at epoch \<open>i\<close> the weighted mean of the valid samples
  \<open>j\<close> inside the window, NaN when there is none. The centered mean takes the 11 epochs
  \<open>i - 5, \<dots>, i + 5\<close> with weights falling linearly from 1 at \<open>i\<close> to 1/6 at distance 5;
  the past mean takes the 10 epochs \<open>i - 9, \<dots>, i\<close> with equal weights.
\<close>

definition spec_window_mean ::
  "(nat \<Rightarrow> nat \<Rightarrow> real) \<Rightarrow> (nat \<Rightarrow> nat \<Rightarrow> bool) \<Rightarrow> float list \<Rightarrow> float list" where
  "spec_window_mean weight inwin xs =
     map (\<lambda>i. let js = filter (\<lambda>j. inwin i j \<and> xs ! j \<noteq> None) [0..<length xs]
              in if js = [] then None
                 else Some (sum_list (map (\<lambda>j. weight i j * the (xs ! j)) js)
                            / sum_list (map (weight i) js)))
         [0..<length xs]"

definition spec_centered_mean :: "float list \<Rightarrow> float list" where
  "spec_centered_mean =
     spec_window_mean (\<lambda>i j. (6 - \<bar>real i - real j\<bar>) / 6) (\<lambda>i j. j \<le> i + 5 \<and> i \<le> j + 5)"

definition spec_past_mean :: "float list \<Rightarrow> float list" where
  "spec_past_mean = spec_window_mean (\<lambda>i j. 1) (\<lambda>i j. j \<le> i \<and> i < j + 10)"

text \<open>
  The feature names of one channel in the order the loop body stores them, and the names
  of the assembled table.
\<close>

definition feature_keys :: "ch_type \<Rightarrow> string list" where
  "feature_keys c =
     [''std'', ''iqr'', ''skew'', ''kurt'', ''nzc'', ''hmob'', ''hcomp'']
     @ (if c \<noteq> EMG then map (\<lambda>(lo, hi, b). b) bands else [])
     @ (if c = EEG then [''dt'', ''ds'', ''db'', ''at''] else [])
     @ [''abspow'', ''perm'', ''higuchi'', ''petrosian'']"

definition base_names :: "ch_type list \<Rightarrow> string list" where
  "base_names cts = concat (map (\<lambda>c. map (\<lambda>k. ch_type_name c @ ''_'' @ k) (feature_keys c)) cts)"

subsection \<open>The Petrosian feature in the words of the specification\<close>

text \<open>
  The first difference of an epoch and the number of its sign changes, by position:
  the count of the \<open>j\<close> with \<open>d\<^sub>j * d\<^sub>j\<^sub>+\<^sub>1 < 0\<close>.
\<close>

definition spec_first_difference :: "float list \<Rightarrow> float list" where
  "spec_first_difference r = map (\<lambda>j. fsub (r ! Suc j) (r ! j)) [0..<length r - 1]"

definition spec_sign_changes :: "float list \<Rightarrow> nat" where
  "spec_sign_changes d =
     length (filter (\<lambda>j. flt (fmul (d ! j) (d ! Suc j)) (Some 0)) [0..<length d - 1])"

subsection \<open>A uniform change of location and scale\<close>

text \<open>The column \<open>a * x + b\<close>; NaN entries stay NaN.\<close>

definition rescale_column :: "real \<Rightarrow> real \<Rightarrow> float list \<Rightarrow> float list" where
  "rescale_column a b xs = map (map_option (\<lambda>x. a * x + b)) xs"

subsection \<open>Notions used in the statements about fit\<close>

text \<open>
  The keys of a dict or the column names of a table after \<^verbatim>\<open>d[k] = v\<close>: a new key goes
  to the end, an existing one keeps its place.
\<close>

definition add_key :: "string list \<Rightarrow> string \<Rightarrow> string list" where
  "add_key ks k = (if k \<in> set ks then ks else ks @ [k])"

text \<open>A table all of whose columns have \<open>n\<close> entries.\<close>

definition rows :: "nat \<Rightarrow> frame \<Rightarrow> bool" where
  "rows n f = list_all (\<lambda>kc. length (snd kc) = n) f"

text \<open>
  For channel \<open>i\<close> of an instance: the epoch start times and the epochs that the loop
  body obtains from the filtered signal, and the feature table it builds.
\<close>

definition channel_times :: "externals \<Rightarrow> SleepStaging \<Rightarrow> nat \<Rightarrow> real list" where
  "channel_times ext self i =
     fst (sliding_window (filter_data ext (data self ! i) (sf self) 0.4 30) (sf self) 30)"

definition epochs_of :: "externals \<Rightarrow> SleepStaging \<Rightarrow> nat \<Rightarrow> float list list" where
  "epochs_of ext self i =
     snd (sliding_window (filter_data ext (data self ! i) (sf self) 0.4 30) (sf self) 30)"

definition channel_table :: "externals \<Rightarrow> real \<Rightarrow> ch_type \<Rightarrow> float list \<Rightarrow> frame" where
  "channel_table ext sfreq c x =
     (case channel_features ext sfreq c x of Inr (t, fr) \<Rightarrow> fr | Inl e \<Rightarrow> [])"

text \<open>The keys of the instance's metadata dict, in order; none without metadata.\<close>

definition metadata_keys :: "heap \<Rightarrow> SleepStaging \<Rightarrow> string list" where
  "metadata_keys h self =
     (case metadata self of
        None \<Rightarrow> []
      | Some a \<Rightarrow> (if length h \<le> a then [] else case h ! a of Dict d \<Rightarrow> map fst d | _ \<Rightarrow> []))"

text \<open>
  The column order as a function of the channel types and the metadata keys alone: the
  base names, their two suffixed families, the two time features and the metadata keys,
  each name once, sorted.
\<close>

definition column_order :: "ch_type list \<Rightarrow> string list \<Rightarrow> string list" where
  "column_order cts keys =
     sort (foldl add_key
             (base_names cts
              @ map (\<lambda>k. k @ ''_c5min_norm'') (base_names cts)
              @ map (\<lambda>k. k @ ''_p5min_norm'') (base_names cts))
             ([''time_hour'', ''time_norm''] @ keys))"

text \<open>What the downcast to single precision does to one cell of a float column.\<close>

definition downcast_cell :: "externals \<Rightarrow> pyval \<Rightarrow> pyval" where
  "downcast_cell ext v =
     (case v of PFloat x \<Rightarrow> PFloat (map_option (astype_float32 ext) x) | _ \<Rightarrow> v)"

text \<open>
  A value that \<^verbatim>\<open>int\<close> and \<^verbatim>\<open>astype(int)\<close> convert without consulting the parser:
  a bool, an int or a float that is not NaN.
\<close>

definition castable :: "pyval \<Rightarrow> bool" where
  "castable v = (case v of PStr s \<Rightarrow> False | PFloat None \<Rightarrow> False | _ \<Rightarrow> True)"

text \<open>
  The metadata of an instance as the constructor leaves it: none, or a dict with unique
  keys whose \<open>age\<close> and \<open>male\<close> entries, where present, are numbers.
\<close>

definition metadata_ready :: "heap \<Rightarrow> SleepStaging \<Rightarrow> bool" where
  "metadata_ready h self =
     (case metadata self of
        None \<Rightarrow> True
      | Some a \<Rightarrow>
          a < length h \<and>
          (case h ! a of
             Dict d \<Rightarrow>
               distinct (map fst d)
               \<and> (case map_of d ''age'' of None \<Rightarrow> True | Some v \<Rightarrow> castable v)
               \<and> (case map_of d ''male'' of None \<Rightarrow> True | Some v \<Rightarrow> castable v)
           | _ \<Rightarrow> False))"

text \<open>The value the metadata dict holds under a key.\<close>

definition metadata_value :: "heap \<Rightarrow> SleepStaging \<Rightarrow> string \<Rightarrow> pyval option" where
  "metadata_value h self k =
     (case metadata self of
        None \<Rightarrow> None
      | Some a \<Rightarrow> (if length h \<le> a then None else case h ! a of Dict d \<Rightarrow> map_of d k | _ \<Rightarrow> None))"

text \<open>
  An instance on which fit runs through with \<open>n\<close> epochs: distinct channel types with
  a data row each, at least two Welch frequencies, the same positive number of epochs
  from every filtered channel, and metadata as the constructor leaves it.
\<close>

definition fit_ready :: "externals \<Rightarrow> heap \<Rightarrow> SleepStaging \<Rightarrow> nat \<Rightarrow> bool" where
  "fit_ready ext h self n =
     (ch_types self \<noteq> [] \<and> distinct (ch_types self)
      \<and> length (ch_types self) \<le> length (data self)
      \<and> 2 \<le> length (welch_freqs ext (sf self) (nat \<lfloor>5 * sf self\<rfloor>))
      \<and> 0 < n
      \<and> list_all (\<lambda>i. length (epochs_of ext self i) = n) [0..<length (ch_types self)]
      \<and> metadata_ready h self)"

text \<open>
  The cell of row \<open>e\<close> in column \<open>k\<close> of the table a computation returns; none when
  the computation raised or the table has no such cell.
\<close>

definition table_cell :: "error + frame \<Rightarrow> string \<Rightarrow> nat \<Rightarrow> pyval option" where
  "table_cell r k e =
     (case r of
        Inl err \<Rightarrow> None
      | Inr f \<Rightarrow>
          (case map_of f k of
             None \<Rightarrow> None
           | Some col \<Rightarrow> if e < length col then Some (col ! e) else None))"

subsection \<open>Example inputs\<close>

text \<open>A stub classifier that requires the given feature names, and an instance that has them.\<close>

definition stub_clf :: "string list \<Rightarrow> string list \<Rightarrow> classifier" where
  "stub_clf names labels =
     \<lparr> clf_feature_name = names, classes = labels,
       clf_predict = (\<lambda>X. replicate (nrows X) (PStr (hd labels))),
       clf_predict_proba = (\<lambda>X. replicate (nrows X) (replicate (length labels) (Some (1 / real (length labels))))) \<rparr>"

definition fitted_instance :: "string list \<Rightarrow> SleepStaging" where
  "fitted_instance names =
     \<lparr> sf = 100, ch_names = [''C4-M1''], ch_types = [EEG], data = [[]], metadata = None,
       features = Some 0, feature_name = Some names, predicted = None, proba = None \<rparr>"

text \<open>
  Stand-ins for the external routines: the filter and the resampler return their input,
  every external feature is zero, single precision rounding is the identity.
\<close>

definition stub_ext :: externals where
  "stub_ext =
     \<lparr> int_of_str = (\<lambda>s. None),
       resample = (\<lambda>x a b. x),
       filter_data = (\<lambda>x s l u. x),
       iqr = (\<lambda>e. Some 0), skew = (\<lambda>e. Some 0), kurtosis = (\<lambda>e. Some 0),
       welch_freqs = (\<lambda>s n. [0, s / real n, 2 * s / real n]),
       welch_psd = (\<lambda>s n e. [Some 0, Some 0, Some 0]),
       bandpower = (\<lambda>p f b j. Some 0),
       perm_entropy = (\<lambda>e. Some 0), higuchi_fd = (\<lambda>e. Some 0),
       astype_float32 = (\<lambda>x. x),
       classifiers_dir = ''classifiers/'', yasa_version = ''0.4.0'',
       isfile = (\<lambda>p. True),
       joblib_load = (\<lambda>p. stub_clf [] [''W'']) \<rparr>"

text \<open>A three-channel recording of \<open>n\<close> samples per channel, all zero, at rate \<open>sfreq\<close>.\<close>

definition flat_raw :: "real \<Rightarrow> nat \<Rightarrow> raw" where
  "flat_raw sfreq n =
     \<lparr> raw_sfreq = sfreq, raw_ch_names = [''C4-M1'', ''LOC-M2'', ''EMG1-EMG2''],
       raw_data = replicate 3 (replicate n (Some 0)) \<rparr>"

text \<open>
  A fitted instance with a one-column feature table on the heap, the externals that load
  a classifier for exactly that column, and the heap and instance after one \<open>predict\<close>.
\<close>

definition demo_ext :: externals where
  "demo_ext = stub_ext\<lparr>joblib_load := (\<lambda>p. stub_clf [''eeg_std''] [''W'', ''N1''])\<rparr>"

definition demo_heap :: heap where
  "demo_heap = [Frame [(''eeg_std'', [PFloat (Some 1), PFloat (Some 2)])]]"

definition demo_heap_predicted :: heap where
  "demo_heap_predicted =
     [Frame [(''eeg_std'', [PFloat (Some 1), PFloat (Some 2)])],
      Array [PStr ''W'', PStr ''W''],
      Frame [(''W'', [PFloat (Some (1 / 2)), PFloat (Some (1 / 2))]),
             (''N1'', [PFloat (Some (1 / 2)), PFloat (Some (1 / 2))])],
      Array [PStr ''W'', PStr ''W'']]"

definition demo_predicted :: SleepStaging where
  "demo_predicted = (fitted_instance [''eeg_std''])\<lparr>predicted := Some 1, proba := Some 2\<rparr>"

text \<open>
  The instance the constructor returns for the EEG channel of \<open>flat_raw 100 30000\<close>
  (five minutes at 100 Hz, ten epochs), with the given metadata reference; externals
  whose filter returns NaN for every sample; a heap holding one metadata dict.
\<close>

definition five_minutes :: "addr option \<Rightarrow> SleepStaging" where
  "five_minutes md =
     \<lparr> sf = 100, ch_names = [''C4-M1''], ch_types = [EEG],
       data = [replicate 30000 (Some 0)], metadata = md, features = None,
       feature_name = None, predicted = None, proba = None \<rparr>"

definition nan_filter_ext :: externals where
  "nan_filter_ext = stub_ext\<lparr>filter_data := (\<lambda>x s l u. map (\<lambda>v. None) x)\<rparr>"

definition metadata_heap :: heap where
  "metadata_heap = [Dict [(''age'', PInt 29), (''male'', PInt 1), (''weight'', PFloat (Some 70.5))]]"

section \<open>Theorems\<close>

subsection \<open>Classifier validation\<close>

lemma setdiff1d_sorted_list:
  "setdiff1d ar1 ar2 = sorted_list_of_set (set ar1 - set ar2)"
proof -
  have "sorted (setdiff1d ar1 ar2)"
    by (simp add: setdiff1d_def sorted_filter [where f = "\<lambda>x. x", simplified])
  moreover have "distinct (setdiff1d ar1 ar2)"
    by (simp add: setdiff1d_def)
  moreover have "set (setdiff1d ar1 ar2) = set ar1 - set ar2"
    by (auto simp: setdiff1d_def)
  ultimately show ?thesis
    by (metis sorted_list_of_set.idem_if_sorted_distinct)
qed

lemma setdiff1d_empty_iff: "setdiff1d ar1 ar2 = [] \<longleftrightarrow> set ar1 \<subseteq> set ar2"
  by (auto simp: setdiff1d_def filter_empty_conv)

text \<open>
  C1 (as amended). Validation fails exactly when the two name sets differ, and the error
  carries the unmatched names of one side only: the sorted names that only the classifier
  has when there are any, otherwise the sorted names that only the feature table has.
\<close>

theorem validate_predict_reports_one_side:
  assumes "feature_name self = Some names"
  shows "validate_predict self clf =
     (if \<not> set (clf_feature_name clf) \<subseteq> set names
      then Inl (ValueError msg_only_in_clf
                  (sorted_list_of_set (set (clf_feature_name clf) - set names)))
      else if \<not> set names \<subseteq> set (clf_feature_name clf)
      then Inl (ValueError msg_only_in_features
                  (sorted_list_of_set (set names - set (clf_feature_name clf))))
      else Inr ())"
  using assms
  by (simp add: validate_predict_def Let_def setdiff1d_empty_iff setdiff1d_sorted_list [symmetric])

theorem validate_predict_reports_one_side_witness:
  "feature_name (fitted_instance [''eeg_iqr'', ''eeg_std'']) = Some [''eeg_iqr'', ''eeg_std'']
   \<and> validate_predict (fitted_instance [''eeg_iqr'', ''eeg_std''])
         (stub_clf [''eeg_std'', ''eog_std'', ''age''] [''W''])
       = Inl (ValueError msg_only_in_clf [''age'', ''eog_std''])"
proof -
  have n: "feature_name (fitted_instance [''eeg_iqr'', ''eeg_std'']) = Some [''eeg_iqr'', ''eeg_std'']"
    by (simp add: fitted_instance_def)
  have s: "sorted_list_of_set (set [''eeg_std'', ''eog_std'', ''age''] - set [''eeg_iqr'', ''eeg_std''])
           = [''age'', ''eog_std'']"
    by (simp add: setdiff1d_sorted_list [symmetric] setdiff1d_def)
  show ?thesis
    using validate_predict_reports_one_side [OF n, of "stub_clf [''eeg_std'', ''eog_std'', ''age''] [''W'']"] n s
    by (simp add: stub_clf_def)
qed

text \<open>
  The claim as stated fails: with one name only in the classifier and another only in
  the table, the error reports the first and is silent about the second.
\<close>

theorem validate_predict_both_sides_counterexample:
  "reported_names (validate_predict (fitted_instance [''eeg_std'', ''eog_std''])
                     (stub_clf [''eeg_std'', ''emg_std''] [''W'']))
     = Some [''emg_std'']
   \<and> ''eog_std'' \<in> spec_unmatched [''eeg_std'', ''emg_std''] [''eeg_std'', ''eog_std'']
   \<and> ''eog_std'' \<notin> set [''emg_std'']"
  by (simp add: validate_predict_def fitted_instance_def stub_clf_def setdiff1d_def spec_unmatched_def)

subsection \<open>The constructor\<close>

lemma shape1_single [simp]: "shape1 [row] = length row"
  by (simp add: shape1_def)

lemma fmul_Some [simp]: "fmul (Some x) (Some y) = Some (x * y)"
  by (simp add: fmul_def)

lemma flat_raw_sel [simp]:
  "raw_sfreq (flat_raw sfreq n) = sfreq"
  "raw_ch_names (flat_raw sfreq n) = [''C4-M1'', ''LOC-M2'', ''EMG1-EMG2'']"
  "raw_data (flat_raw sfreq n) = [replicate n (Some 0), replicate n (Some 0), replicate n (Some 0)]"
  by (simp_all add: flat_raw_def numeral_3_eq_3)

lemma pick_flat_raw [simp]:
  "pick_channels (flat_raw sfreq n) [''C4-M1''] = [replicate n (Some 0)]"
  by (simp add: pick_channels_def)

lemma init_raw_flat_eeg:
  "init_raw ext (flat_raw sfreq n) ''C4-M1'' None None md =
     (if \<not> sfreq > 80 then Inl (AssertionError ''Sampling frequency must be at least 80 Hz.'')
      else if sfreq \<noteq> 100
      then (if \<not> real (length (resample ext (replicate n (Some 0)) sfreq 100)) / 100 / 60 \<ge> 5
            then Inl (AssertionError ''At least 5 minutes of data is required.'')
            else Inr \<lparr> sf = 100, ch_names = [''C4-M1''], ch_types = [EEG],
                       data = [map (fmul (Some 1000000)) (resample ext (replicate n (Some 0)) sfreq 100)],
                       metadata = md, features = None, feature_name = None,
                       predicted = None, proba = None \<rparr>)
      else (if \<not> real n / 100 / 60 \<ge> 5
            then Inl (AssertionError ''At least 5 minutes of data is required.'')
            else Inr \<lparr> sf = 100, ch_names = [''C4-M1''], ch_types = [EEG],
                       data = [replicate n (Some 0)],
                       metadata = md, features = None, feature_name = None,
                       predicted = None, proba = None \<rparr>))"
proof -
  have c: "check_channels (flat_raw sfreq n) [Some ''C4-M1'', None, None] = Inr [True, False, False]"
    by simp
  show ?thesis
    by (simp add: init_raw_def c mask_def Let_def)
qed

text \<open>
  C2. The constructor rejects a recording sampled at exactly 80 Hz, with the message
  that the sampling frequency must be at least 80 Hz; a recording of exactly 5 minutes
  (30000 samples at 100 Hz) is accepted.
\<close>

theorem init_rejects_exactly_80_hz:
  "snd (init ext h (flat_raw 80 24000) ''C4-M1'' None None None)
     = Inl (AssertionError ''Sampling frequency must be at least 80 Hz.'')
   \<and> snd (init ext h (flat_raw 100 30000) ''C4-M1'' None None None)
     = Inr \<lparr> sf = 100, ch_names = [''C4-M1''], ch_types = [EEG],
             data = [replicate 30000 (Some 0)], metadata = None, features = None,
             feature_name = None, predicted = None, proba = None \<rparr>"
  by (simp add: init_def init_raw_flat_eeg)

lemma validate_metadata_male:
  assumes "validate_metadata ext h a = (h', Inr u)" "h ! a = Dict d" "map_of d ''male'' = Some v"
  shows "\<exists>m. py_int ext v = Inr m \<and> (m = 0 \<or> m = 1)
             \<and> h' = h[a := Dict (AList.update ''male'' (PInt m) d)]"
  using assms
  by (auto simp: validate_metadata_def Let_def split: if_splits option.splits sum.splits)

lemma init_Some_success:
  assumes "init ext h r eeg_name eog_name emg_name (Some a) = (h', Inr self)"
  shows "validate_metadata ext h a = (h', Inr ())
         \<and> init_raw ext r eeg_name eog_name emg_name (Some a) = Inr self"
  using assms
  by (auto simp: init_def split: prod.splits sum.splits)

lemma init_raw_metadata:
  "init_raw ext r eeg_name eog_name emg_name md = Inr self \<Longrightarrow> metadata self = md"
  by (auto simp: init_raw_def Let_def split: sum.splits if_splits)

text \<open>
  C10. When construction succeeds on a metadata dict (at address \<open>a\<close>) that has a
  \<open>male\<close> key, the caller's dict itself has been updated: the value stored under
  \<open>male\<close> is now the integer coercion of the value supplied, which is 0 or 1; nothing
  else on the heap has changed, and the instance refers to that same dict.
\<close>

theorem init_coerces_male_in_place:
  assumes "init ext h r eeg_name eog_name emg_name (Some a) = (h', Inr self)"
    and "h ! a = Dict d"
    and "map_of d ''male'' = Some v"
  shows "\<exists>m. py_int ext v = Inr m \<and> (m = 0 \<or> m = 1)
             \<and> h' = h[a := Dict (AList.update ''male'' (PInt m) d)]
             \<and> metadata self = Some a"
proof -
  from init_Some_success [OF assms(1)]
  have v: "validate_metadata ext h a = (h', Inr ())"
    and r: "init_raw ext r eeg_name eog_name emg_name (Some a) = Inr self"
    by simp_all
  from validate_metadata_male [OF v assms(2) assms(3)] init_raw_metadata [OF r]
  show ?thesis by blast
qed

theorem init_coerces_male_in_place_witness:
  "init stub_ext [Dict [(''age'', PInt 29), (''male'', PBool True)]]
        (flat_raw 100 30000) ''C4-M1'' None None (Some 0)
     = ([Dict [(''age'', PInt 29), (''male'', PInt 1)]],
        Inr \<lparr> sf = 100, ch_names = [''C4-M1''], ch_types = [EEG],
              data = [replicate 30000 (Some 0)], metadata = Some 0, features = None,
              feature_name = None, predicted = None, proba = None \<rparr>)
   \<and> (\<exists>m. py_int stub_ext (PBool True) = Inr m \<and> (m = 0 \<or> m = 1)
          \<and> [Dict [(''age'', PInt 29), (''male'', PInt 1)]]
              = [Dict [(''age'', PInt 29), (''male'', PBool True)]]
                  [0 := Dict (AList.update ''male'' (PInt m) [(''age'', PInt 29), (''male'', PBool True)])])"
proof -
  have i: "init stub_ext [Dict [(''age'', PInt 29), (''male'', PBool True)]]
             (flat_raw 100 30000) ''C4-M1'' None None (Some 0)
           = ([Dict [(''age'', PInt 29), (''male'', PInt 1)]],
              Inr \<lparr> sf = 100, ch_names = [''C4-M1''], ch_types = [EEG],
                    data = [replicate 30000 (Some 0)], metadata = Some 0, features = None,
                    feature_name = None, predicted = None, proba = None \<rparr>)"
    by (simp add: init_def validate_metadata_def py_num_def py_int_def flt_def init_raw_flat_eeg)
  from init_coerces_male_in_place [OF i, of "[(''age'', PInt 29), (''male'', PBool True)]" "PBool True"]
  show ?thesis using i by simp
qed

subsection \<open>Cached probabilities\<close>

lemma copy_frame_Frame:
  "a < length h \<Longrightarrow> h ! a = Frame f \<Longrightarrow>
     copy_frame h self attr (Some a) = (h @ [Frame f], self, Inr (length h))"
  by (simp add: copy_frame_def alloc_def)

lemma predict_success:
  assumes "predict ext h self path = (h', self', Inr r)"
  shows "\<exists>q pr. proba self' = Some q \<and> q < length h' \<and> h' ! q = Frame pr"
  using assms
  by (auto simp: predict_def Let_def alloc_def copy_frame_def nth_append
           split: prod.splits sum.splits option.splits if_splits obj.splits)

text \<open>
  C8. With a cached probability table (at address \<open>p\<close>), \<open>predict_proba\<close> leaves the
  instance as it is, whatever path it is given, and returns the address of a new object
  with the table's content: writing to the returned object does not change the cached
  one. Without a cached table it runs \<open>predict\<close> first and, when that succeeds, returns
  a new copy of the table \<open>predict\<close> has just cached.
\<close>

theorem predict_proba_returns_copy_of_cache:
  assumes "proba self = Some p" and "p < length h" and "h ! p = Frame f"
    and "proba self0 = None" and "predict ext h0 self0 path0 = (h1, self1, Inr r)"
  shows "predict_proba ext h self path = (h @ [Frame f], self, Inr (length h))
         \<and> length h \<noteq> p
         \<and> (\<forall>ob. ((h @ [Frame f])[length h := ob]) ! p = Frame f)
         \<and> (\<exists>q pr. proba self1 = Some q \<and> q < length h1 \<and> h1 ! q = Frame pr
                \<and> predict_proba ext h0 self0 path0 = (h1 @ [Frame pr], self1, Inr (length h1)))"
proof -
  have a: "predict_proba ext h self path = (h @ [Frame f], self, Inr (length h))"
    using assms(1-3) by (simp add: predict_proba_def copy_frame_Frame)
  have b: "length h \<noteq> p" using assms(2) by simp
  have c: "\<forall>ob. ((h @ [Frame f])[length h := ob]) ! p = Frame f"
    using assms(2,3) by (simp add: nth_append)
  from predict_success [OF assms(5)] obtain q pr
    where q: "proba self1 = Some q" "q < length h1" "h1 ! q = Frame pr" by blast
  have d: "predict_proba ext h0 self0 path0 = (h1 @ [Frame pr], self1, Inr (length h1))"
    using assms(4,5) q by (simp add: predict_proba_def copy_frame_Frame)
  show ?thesis using a b c d q by blast
qed

theorem predict_proba_returns_copy_of_cache_witness:
  "predict demo_ext demo_heap (fitted_instance [''eeg_std'']) ''auto''
     = (demo_heap_predicted, demo_predicted, Inr 3)
   \<and> predict_proba demo_ext demo_heap (fitted_instance [''eeg_std'']) ''auto''
     = (demo_heap_predicted @ [demo_heap_predicted ! 2], demo_predicted, Inr 4)
   \<and> predict_proba demo_ext demo_heap_predicted demo_predicted ''another_model.joblib''
     = (demo_heap_predicted @ [demo_heap_predicted ! 2], demo_predicted, Inr 4)"
proof -
  have p: "predict demo_ext demo_heap (fitted_instance [''eeg_std'']) ''auto''
             = (demo_heap_predicted, demo_predicted, Inr 3)"
    by (simp add: predict_def demo_ext_def stub_ext_def fitted_instance_def load_model_def
          validate_predict_def setdiff1d_def stub_clf_def project_def frame_of_matrix_def
          alloc_def copy_frame_def nrows_def Let_def demo_heap_def demo_heap_predicted_def
          demo_predicted_def)
  have c: "proba demo_predicted = Some 2" "(2::nat) < length demo_heap_predicted"
    "demo_heap_predicted ! 2 = Frame [(''W'', [PFloat (Some (1 / 2)), PFloat (Some (1 / 2))]),
                                      (''N1'', [PFloat (Some (1 / 2)), PFloat (Some (1 / 2))])]"
    by (simp_all add: demo_predicted_def demo_heap_predicted_def)
  have n: "proba (fitted_instance [''eeg_std'']) = None"
    by (simp add: fitted_instance_def)
  from predict_proba_returns_copy_of_cache [OF c n p, of "''another_model.joblib''"]
  show ?thesis using p c by (simp add: demo_heap_predicted_def)
qed

subsection \<open>The Petrosian fractal dimension\<close>

lemma map2_butlast_tl:
  "map2 f (butlast xs) (tl xs) = map (\<lambda>j. f (xs ! j) (xs ! Suc j)) [0..<length xs - 1]"
  by (rule nth_equalityI) (auto simp: nth_butlast nth_tl)

lemma map2_tl_butlast:
  "map2 f (tl xs) (butlast xs) = map (\<lambda>j. f (xs ! Suc j) (xs ! j)) [0..<length xs - 1]"
  by (rule nth_equalityI) (auto simp: nth_butlast nth_tl)

lemma diff_row_spec: "diff_row r = spec_first_difference r"
  by (simp add: diff_row_def spec_first_difference_def map2_tl_butlast)

lemma nzc_row_spec: "nzc_row d = spec_sign_changes d"
  by (simp add: nzc_row_def spec_sign_changes_def map2_butlast_tl filter_map comp_def)

lemma nzc_row_le: "nzc_row d \<le> length d - 1"
proof -
  have "nzc_row d \<le> length (map2 fmul (butlast d) (tl d))"
    unfolding nzc_row_def by (rule length_filter_le)
  then show ?thesis by simp
qed

lemma length_diff_row: "length (diff_row r) = length r - 1"
  by (simp add: diff_row_def)

lemma petrosian_value:
  fixes n k :: nat
  assumes "2 \<le> n" "k \<le> n - 2"
  shows "fdiv (flog10 (Some (real n)))
              (fadd (flog10 (Some (real n))) (flog10 (fdiv (Some (real n)) (Some (real n + 0.4 * real k)))))
         = Some (log 10 (real n) / (log 10 (real n) + log 10 (real n / (real n + 0.4 * real k))))"
proof -
  define d where "d = real n + 0.4 * real k"
  define q where "q = real n / d"
  have n: "0 < real n" "1 < real n" using assms by simp_all
  have d: "0 < d" using n by (simp add: d_def add_pos_nonneg)
  have q: "0 < q" using n d by (simp add: q_def)
  have "d < real n * real n"
  proof -
    have "real k \<le> real n - 2" using assms by simp
    then have "d < real n + real n" using n by (simp add: d_def)
    also have "\<dots> \<le> real n * real n" using assms
      by (metis mult_2 mult_le_mono1 of_nat_add of_nat_le_iff of_nat_mult)
    finally show ?thesis .
  qed
  then have "1 < real n * q"
    using d by (simp add: q_def field_simps)
  then have "0 < log 10 (real n * q)" by simp
  moreover have "log 10 (real n * q) = log 10 (real n) + log 10 q"
    using n q by (simp add: log_mult)
  ultimately have s: "log 10 (real n) + log 10 q \<noteq> 0" by simp
  have "fdiv (flog10 (Some (real n))) (fadd (flog10 (Some (real n))) (flog10 (fdiv (Some (real n)) (Some d))))
        = Some (log 10 (real n) / (log 10 (real n) + log 10 q))"
    using n d q s by (simp add: fdiv_def fadd_def flog10_def q_def [symmetric])
  then show ?thesis by (simp only: d_def q_def)
qed

lemma petrosian_nth:
  assumes "i < length x" and "\<forall>r \<in> set x. length r = n"
  shows "petrosian x ! i =
           fdiv (flog10 (Some (real n)))
             (fadd (flog10 (Some (real n)))
                (flog10 (fdiv (Some (real n))
                   (Some (real n + 0.4 * real (nzc_row (diff_row (x ! i))))))))"
proof -
  from assms have "shape1 x = n"
    by (cases x) (auto simp: shape1_def)
  with assms(1) show ?thesis
    by (simp add: petrosian_def Let_def nzc_def diff_def)
qed

text \<open>
  C6. For an epoch of \<open>n\<close> samples (row \<open>i\<close> of the epoch array, \<open>n \<ge> 2\<close>), the
  \<open>petrosian\<close> feature is \<open>log10 n / (log10 n + log10 (n / (n + 0.4 k)))\<close>, where \<open>k\<close>
  counts the positions at which two consecutive values of the epoch's first difference
  have a negative product.
\<close>

theorem petrosian_closed_form:
  assumes "i < length x" and "\<forall>r \<in> set x. length r = n" and "2 \<le> n"
  shows "petrosian x ! i =
           Some (log 10 (real n) /
                 (log 10 (real n) +
                  log 10 (real n /
                    (real n + 0.4 * real (spec_sign_changes (spec_first_difference (x ! i)))))))"
proof -
  have len: "length (x ! i) = n" using assms(1,2) by simp
  have "nzc_row (diff_row (x ! i)) \<le> length (diff_row (x ! i)) - 1"
    by (rule nzc_row_le)
  then have k: "nzc_row (diff_row (x ! i)) \<le> n - 2"
    by (simp add: length_diff_row len)
  have "petrosian x ! i =
          Some (log 10 (real n) /
                (log 10 (real n) +
                 log 10 (real n / (real n + 0.4 * real (nzc_row (diff_row (x ! i)))))))"
    by (simp only: petrosian_nth [OF assms(1,2)] petrosian_value [OF assms(3) k])
  then show ?thesis
    by (simp only: nzc_row_spec diff_row_spec)
qed

theorem petrosian_closed_form_witness:
  "(0::nat) < length [[Some 1, Some 3, Some 2, Some (5::real)]]
   \<and> length [Some 1, Some 3, Some 2, Some (5::real)] = 4
   \<and> spec_sign_changes (spec_first_difference [Some 1, Some 3, Some 2, Some 5]) = 2
   \<and> petrosian [[Some 1, Some 3, Some 2, Some 5]] ! 0
       = Some (log 10 4 / (log 10 4 + log 10 (4 / (4 + 0.4 * 2))))"
proof -
  have k: "spec_sign_changes (spec_first_difference [Some 1, Some 3, Some 2, Some 5]) = 2"
    by (simp add: spec_sign_changes_def spec_first_difference_def fsub_def flt_def upt_rec)
  from petrosian_closed_form [of 0 "[[Some 1, Some 3, Some 2, Some 5]]" 4]
  show ?thesis using k by simp
qed

subsection \<open>Robust scaling\<close>

lemma sort_affine:
  fixes a b :: real
  assumes "0 < a"
  shows "sort (map (\<lambda>x. a * x + b) vs) = map (\<lambda>x. a * x + b) (sort vs)"
proof (rule properties_for_sort)
  show "mset (map (\<lambda>x. a * x + b) (sort vs)) = mset (map (\<lambda>x. a * x + b) vs)"
    by simp
  have "mono (\<lambda>x. a * x + b)"
    using assms by (simp add: mono_def)
  then show "sorted (map (\<lambda>x. a * x + b) (sort vs))"
    by (simp add: sorted_map mono_def sorted_wrt_mono_rel [of _ "(\<le>)"])
qed

lemma percentile_affine:
  fixes a b q :: real
  assumes "0 < a" "vs \<noteq> []" "0 \<le> q" "q \<le> 100"
  shows "percentile q (map (\<lambda>x. a * x + b) vs) = a * percentile q vs + b"
proof -
  define n where "n = length vs"
  define s where "s = sort vs"
  define pos where "pos = q / 100 * real (n - 1)"
  define lo where "lo = nat \<lfloor>pos\<rfloor>"
  define hi where "hi = min (lo + 1) (n - 1)"
  have n: "0 < n" using assms(2) by (simp add: n_def)
  have ls: "length s = n" by (simp add: s_def n_def)
  have "q / 100 \<le> 1" using assms(4) by simp
  then have "q / 100 * real (n - 1) \<le> 1 * real (n - 1)"
    by (rule mult_right_mono) simp
  then have "pos \<le> real (n - 1)"
    by (simp add: pos_def)
  then have "\<lfloor>pos\<rfloor> \<le> int (n - 1)" by (simp add: floor_le_iff)
  then have lo: "lo < n" using n by (simp add: lo_def)
  have hi: "hi < n" using n by (simp add: hi_def)
  have p1: "percentile q vs = s ! lo + (pos - real lo) * (s ! hi - s ! lo)"
    by (simp add: percentile_def Let_def s_def n_def pos_def lo_def hi_def)
  have "percentile q (map (\<lambda>x. a * x + b) vs)
          = map (\<lambda>x. a * x + b) s ! lo
            + (pos - real lo) * (map (\<lambda>x. a * x + b) s ! hi - map (\<lambda>x. a * x + b) s ! lo)"
    by (simp add: percentile_def Let_def sort_affine [OF assms(1)] s_def n_def pos_def lo_def hi_def)
  also have "\<dots> = a * (s ! lo + (pos - real lo) * (s ! hi - s ! lo)) + b"
    using lo hi ls by (simp add: algebra_simps)
  finally show ?thesis by (simp add: p1)
qed

lemma median_affine:
  fixes a b :: real
  assumes "0 < a" "vs \<noteq> []"
  shows "median (map (\<lambda>x. a * x + b) vs) = a * median vs + b"
proof -
  define s where "s = sort vs"
  define n where "n = length vs"
  have ls: "length s = n" by (simp add: s_def n_def)
  have n: "0 < n" using assms(2) by (simp add: n_def)
  then have i: "n div 2 < n" "n div 2 - 1 < n" by arith+
  have m1: "median vs = (if odd n then s ! (n div 2) else (s ! (n div 2 - 1) + s ! (n div 2)) / 2)"
    by (simp add: median_def Let_def s_def n_def)
  have "median (map (\<lambda>x. a * x + b) vs)
          = (if odd n then map (\<lambda>x. a * x + b) s ! (n div 2)
             else (map (\<lambda>x. a * x + b) s ! (n div 2 - 1) + map (\<lambda>x. a * x + b) s ! (n div 2)) / 2)"
    by (simp add: median_def Let_def sort_affine [OF assms(1)] s_def n_def)
  also have "\<dots> = a * (if odd n then s ! (n div 2) else (s ! (n div 2 - 1) + s ! (n div 2)) / 2) + b"
    using i ls by (simp add: algebra_simps add_divide_distrib)
  finally show ?thesis by (simp add: m1)
qed

lemma valid_samples_affine:
  "valid_samples (map (map_option f) xs) = map f (valid_samples xs)"
  by (induction xs) (auto simp: valid_samples_def)

lemma valid_samples_Nil: "valid_samples xs = [] \<Longrightarrow> map (map_option f) xs = xs"
  by (induction xs) (auto simp: valid_samples_def split: if_splits)

lemma robust_scale_affine:
  fixes a b :: real
  assumes "0 < a"
    and "a = 1 \<or> percentile 95 (valid_samples xs) \<noteq> percentile 5 (valid_samples xs)"
  shows "robust_scale (5, 95) (map (map_option (\<lambda>x. a * x + b)) xs) = robust_scale (5, 95) xs"
proof (cases "valid_samples xs = []")
  case True
  then show ?thesis by (simp add: valid_samples_Nil)
next
  case False
  define vs where "vs = valid_samples xs"
  define sc where "sc = percentile 95 vs - percentile 5 vs"
  have ne: "vs \<noteq> []" using False by (simp add: vs_def)
  have m: "median (map (\<lambda>x. a * x + b) vs) = a * median vs + b"
    by (rule median_affine [OF assms(1) ne])
  have p: "percentile 95 (map (\<lambda>x. a * x + b) vs) - percentile 5 (map (\<lambda>x. a * x + b) vs) = a * sc"
    using percentile_affine [OF assms(1) ne, of 95 b] percentile_affine [OF assms(1) ne, of 5 b]
    by (simp add: sc_def algebra_simps)
  have l: "robust_scale (5, 95) (map (map_option (\<lambda>x. a * x + b)) xs)
           = map (map_option (\<lambda>x. (x - (a * median vs + b)) / (if a * sc = 0 then 1 else a * sc)))
                 (map (map_option (\<lambda>x. a * x + b)) xs)"
    using ne by (simp add: robust_scale_def valid_samples_affine vs_def [symmetric] m p Let_def)
  have r: "robust_scale (5, 95) xs
           = map (map_option (\<lambda>x. (x - median vs) / (if sc = 0 then 1 else sc))) xs"
    using ne by (simp add: robust_scale_def Let_def vs_def [symmetric] sc_def [symmetric])
  have "(a * x + b - (a * median vs + b)) / (if a * sc = 0 then 1 else a * sc)
        = (x - median vs) / (if sc = 0 then 1 else sc)" for x
  proof (cases "sc = 0")
    case True
    with assms(2) have "a = 1" by (simp add: sc_def vs_def)
    with True show ?thesis by simp
  next
    case False
    have "a * x + b - (a * median vs + b) = a * (x - median vs)" by (simp add: algebra_simps)
    with False assms(1) show ?thesis by simp
  qed
  then show ?thesis
    by (simp add: l r option.map_comp comp_def)
qed

text \<open>
  C7 (as amended). Robust scaling of a column is unchanged by a uniform shift, and by a
  uniform change of scale with a positive factor when the column's 5th and 95th
  percentiles differ.
\<close>

theorem robust_scale_affine_invariant:
  fixes a b :: real
  assumes "0 < a"
    and "a = 1 \<or> percentile 95 (valid_samples xs) \<noteq> percentile 5 (valid_samples xs)"
  shows "robust_scale (5, 95) (rescale_column a b xs) = robust_scale (5, 95) xs"
  unfolding rescale_column_def using assms by (rule robust_scale_affine)

theorem robust_scale_affine_invariant_witness:
  "(0::real) < 2
   \<and> percentile 95 (valid_samples [Some 1, None, Some 2, Some 4])
       \<noteq> percentile 5 (valid_samples [Some 1, None, Some 2, Some 4])
   \<and> robust_scale (5, 95) (rescale_column 2 3 [Some 1, None, Some 2, Some 4])
       = robust_scale (5, 95) [Some 1, None, Some 2, Some 4]"
proof -
  have p: "percentile 95 (valid_samples [Some 1, None, Some 2, Some 4])
             \<noteq> percentile 5 (valid_samples [Some 1, None, Some 2, Some 4])"
    by (simp add: percentile_def valid_samples_def Let_def)
  from robust_scale_affine_invariant [of 2 "[Some 1, None, Some 2, Some 4]" 3] p
  show ?thesis by simp
qed

subsection \<open>Smoothing and normalization\<close>

lemma triang_11:
  "triang 11 = [1/6, 1/3, 1/2, 2/3, 5/6, 1, 5/6, 2/3, 1/2, 1/3, 1/6]"
  by (simp add: triang_def upt_rec)

lemma reindex_window:
  "map (\<lambda>k. i + k - back) (filter (\<lambda>k. back \<le> i + k \<and> i + k - back < n \<and> P (i + k - back)) [0..<W])
     = filter (\<lambda>j. i \<le> j + back \<and> j + back < i + W \<and> P j) [0..<n]"
  (is "?l = ?r")
proof (rule strict_sorted_equal)
  show "sorted_wrt (<) ?r" by (rule sorted_wrt_filter) simp
  have "sorted_wrt (<) (filter (\<lambda>k. back \<le> i + k \<and> i + k - back < n \<and> P (i + k - back)) [0..<W])"
    by (rule sorted_wrt_filter) simp
  then show "sorted_wrt (<) ?l"
    by (rule sorted_wrt_map_mono) auto
  show "set ?l = set ?r"
  proof (rule set_eqI, rule iffI)
    fix j assume "j \<in> set ?r"
    then have j: "i \<le> j + back" "j + back < i + W" "P j" "j < n" by auto
    then have "j + back - i < W" "back \<le> i + (j + back - i)" "i + (j + back - i) - back = j" by arith+
    with j show "j \<in> set ?l" by (auto simp: image_iff intro!: bexI [of _ "j + back - i"])
  next
    fix j assume "j \<in> set ?l"
    then show "j \<in> set ?r" by auto
  qed
qed

lemma weighted_mean_window:
  assumes w: "\<And>k. k < length w \<Longrightarrow> back \<le> i + k \<Longrightarrow> w ! k = weight i (i + k - back)"
    and inwin: "\<And>j. inwin i j \<longleftrightarrow> i \<le> j + back \<and> j + back < i + length w"
    and pos: "\<And>k. k < length w \<Longrightarrow> 0 < w ! k"
  shows "weighted_mean 1 (window_at w back xs i) =
           (let js = filter (\<lambda>j. inwin i j \<and> xs ! j \<noteq> None) [0..<length xs]
            in if js = [] then None
               else Some (sum_list (map (\<lambda>j. weight i j * the (xs ! j)) js)
                          / sum_list (map (weight i) js)))"
proof -
  define ks where
    "ks = filter (\<lambda>k. back \<le> i + k \<and> i + k - back < length xs \<and> xs ! (i + k - back) \<noteq> None)
            [0..<length w]"
  define js where "js = filter (\<lambda>j. inwin i j \<and> xs ! j \<noteq> None) [0..<length xs]"
  define valid where
    "valid = map (\<lambda>p. (fst p, the (snd p))) (filter (\<lambda>p. snd p \<noteq> None) (window_at w back xs i))"
  have js: "js = map (\<lambda>k. i + k - back) ks"
    unfolding js_def ks_def
    by (simp only: reindex_window [where P = "\<lambda>j. xs ! j \<noteq> None"] inwin conj_assoc)
  have "valid = map (\<lambda>k. (w ! k, the (xs ! (i + k - back)))) ks"
    by (simp add: valid_def window_at_def ks_def filter_map comp_def)
  also have "\<dots> = map (\<lambda>k. (weight i (i + k - back), the (xs ! (i + k - back)))) ks"
    by (rule map_cong) (auto simp: ks_def w)
  finally have valid: "valid = map (\<lambda>j. (weight i j, the (xs ! j))) js"
    by (simp add: js comp_def)
  have kpos: "0 < weight i j" if "j \<in> set js" for j
  proof -
    from that obtain k where "k \<in> set ks" "j = i + k - back" by (auto simp: js)
    then show ?thesis using w [of k] pos [of k] by (auto simp: ks_def)
  qed
  have tot: "sum_list (map (weight i) js) \<noteq> 0" if "js \<noteq> []"
  proof
    assume "sum_list (map (weight i) js) = 0"
    moreover have "\<forall>x \<in> set (map (weight i) js). 0 \<le> x"
      using kpos by (auto intro: less_imp_le)
    ultimately have "\<forall>x \<in> set (map (weight i) js). x = 0"
      by (simp only: sum_list_nonneg_eq_0_iff)
    moreover from that obtain j where "j \<in> set js" by (cases js) auto
    ultimately show False
      using kpos [of j] by auto
  qed
  have "weighted_mean 1 (window_at w back xs i) =
          (if length valid < 1 \<or> sum_list (map fst valid) = 0 then None
           else Some (sum_list (map (\<lambda>p. fst p * snd p) valid) / sum_list (map fst valid)))"
    by (simp add: weighted_mean_def valid_def Let_def)
  also have "\<dots> = (if js = [] then None
                     else Some (sum_list (map (\<lambda>j. weight i j * the (xs ! j)) js)
                                / sum_list (map (weight i) js)))"
    using tot by (cases "js = []") (simp_all add: valid comp_def)
  finally show ?thesis by (simp add: js_def Let_def)
qed

lemma triang_11_nth:
  assumes "k < 11"
  shows "triang 11 ! k = (6 - \<bar>5 - real k\<bar>) / 6" and "0 < triang 11 ! k"
proof -
  from assms
  have k: "k = 0 \<or> k = 1 \<or> k = 2 \<or> k = 3 \<or> k = 4 \<or> k = 5 \<or> k = 6 \<or> k = 7 \<or> k = 8 \<or> k = 9 \<or> k = 10"
    by arith
  then show "triang 11 ! k = (6 - \<bar>5 - real k\<bar>) / 6"
    by (elim disjE) (simp_all add: triang_11)
  from k show "0 < triang 11 ! k"
    by (elim disjE) (simp_all add: triang_11)
qed

lemma length_triang_11: "length (triang 11) = 11"
  by (simp add: triang_11)

lemma rolling_centered_spec:
  "rolling_mean 11 True 1 (Some (triang 11)) xs = spec_centered_mean xs"
proof -
  have "weighted_mean 1 (window_at (triang 11) 5 xs i) =
          (let js = filter (\<lambda>j. (j \<le> i + 5 \<and> i \<le> j + 5) \<and> xs ! j \<noteq> None) [0..<length xs]
           in if js = [] then None
              else Some (sum_list (map (\<lambda>j. (6 - \<bar>real i - real j\<bar>) / 6 * the (xs ! j)) js)
                         / sum_list (map (\<lambda>j. (6 - \<bar>real i - real j\<bar>) / 6) js)))" for i
  proof (rule weighted_mean_window)
    fix k assume k: "k < length (triang 11)" "5 \<le> i + k"
    then have "real (i + k - 5) = real i + real k - 5" by simp
    then have "\<bar>real i - real (i + k - 5)\<bar> = \<bar>5 - real k\<bar>" by simp
    with k show "triang 11 ! k = (6 - \<bar>real i - real (i + k - 5)\<bar>) / 6"
      by (simp add: length_triang_11 triang_11_nth)
  next
    fix j show "(j \<le> i + 5 \<and> i \<le> j + 5) = (i \<le> j + 5 \<and> j + 5 < i + length (triang 11))"
      by (auto simp: length_triang_11)
  next
    fix k assume "k < length (triang 11)"
    then show "0 < triang 11 ! k" by (simp add: length_triang_11 triang_11_nth)
  qed
  then show ?thesis
    by (simp add: rolling_mean_def spec_centered_mean_def spec_window_mean_def Let_def)
qed

lemma rolling_past_spec:
  "rolling_mean 10 False 1 None xs = spec_past_mean xs"
proof -
  have "weighted_mean 1 (window_at (replicate 10 1) 9 xs i) =
          (let js = filter (\<lambda>j. (j \<le> i \<and> i < j + 10) \<and> xs ! j \<noteq> None) [0..<length xs]
           in if js = [] then None
              else Some (sum_list (map (\<lambda>j. 1 * the (xs ! j)) js)
                         / sum_list (map (\<lambda>j. 1) js)))" for i
    by (rule weighted_mean_window) auto
  then show ?thesis
    by (simp add: rolling_mean_def spec_past_mean_def spec_window_mean_def Let_def)
qed

lemma base_names_subset: "set (base_names cts) \<subseteq> set (base_names [EEG, EOG, EMG])"
proof
  fix k assume "k \<in> set (base_names cts)"
  then obtain c where "k \<in> set (map (\<lambda>k. ch_type_name c @ ''_'' @ k) (feature_keys c))"
    by (auto simp: base_names_def)
  then show "k \<in> set (base_names [EEG, EOG, EMG])"
    unfolding base_names_def by (cases c) auto
qed

lemma base_name_shape:
  "k \<in> set (base_names [EEG, EOG, EMG]) \<Longrightarrow> 6 \<le> length k \<and> (last k \<noteq> CHR ''m'' \<or> length k < 11)"
  by (auto simp: base_names_def feature_keys_def bands_def)

lemma base_name_no_suffix:
  assumes "k \<in> set (base_names [EEG, EOG, EMG])"
  shows "k \<noteq> k' @ ''_c5min_norm''" and "k \<noteq> k' @ ''_p5min_norm''"
  using base_name_shape [OF assms] by auto


lemma join_disjoint:
  "set (map fst l) \<inter> set (map fst r) = {} \<Longrightarrow> join l r = Inr (l @ r)"
  by (auto simp: join_def Let_def filter_empty_conv)

lemma map_fst_add_suffix: "map fst (add_suffix sfx f) = map (\<lambda>k. k @ sfx) (map fst f)"
  by (simp add: add_suffix_def case_prod_beta)

lemma smooth_base:
  assumes "set (map fst feats) \<subseteq> set (base_names [EEG, EOG, EMG])"
  shows "smooth feats =
     Inr (feats
          @ map (\<lambda>(k, col). (k @ ''_c5min_norm'',
                   map PFloat (robust_scale (5, 95) (spec_centered_mean (map to_float col))))) feats
          @ map (\<lambda>(k, col). (k @ ''_p5min_norm'',
                   map PFloat (robust_scale (5, 95) (spec_past_mean (map to_float col))))) feats)"
proof -
  define rollc where
    "rollc = add_suffix ''_c5min_norm''
       (map (\<lambda>(k, col). (k, map PFloat (robust_scale (5, 95)
               (rolling_mean 11 True 1 (Some (triang 11)) (map to_float col))))) feats)"
  define rollp where
    "rollp = add_suffix ''_p5min_norm''
       (map (\<lambda>(k, col). (k, map PFloat (robust_scale (5, 95)
               (rolling_mean 10 False 1 None (map to_float col))))) feats)"
  have nc: "map fst rollc = map (\<lambda>k. k @ ''_c5min_norm'') (map fst feats)"
    by (simp add: rollc_def map_fst_add_suffix case_prod_beta comp_def)
  have np: "map fst rollp = map (\<lambda>k. k @ ''_p5min_norm'') (map fst feats)"
    by (simp add: rollp_def map_fst_add_suffix case_prod_beta comp_def)
  have d1: "set (map fst feats) \<inter> set (map fst rollc) = {}"
  proof (rule ccontr)
    assume "set (map fst feats) \<inter> set (map fst rollc) \<noteq> {}"
    then obtain k where k: "k \<in> set (map fst feats)" "k \<in> set (map fst rollc)"
      by blast
    from k(2) obtain k' where "k = k' @ ''_c5min_norm''"
      unfolding nc by (auto simp: image_iff)
    with k(1) assms base_name_no_suffix(1) [of k k'] show False by blast
  qed
  have d2: "set (map fst (feats @ rollc)) \<inter> set (map fst rollp) = {}"
  proof (rule ccontr)
    assume "set (map fst (feats @ rollc)) \<inter> set (map fst rollp) \<noteq> {}"
    then obtain k where k1: "k \<in> set (map fst feats) \<union> set (map fst rollc)"
      and k2: "k \<in> set (map fst rollp)"
      by auto
    from k2 obtain k' where "k = k' @ ''_p5min_norm''"
      unfolding np by (auto simp: image_iff)
    with k1 have k: "k \<in> set (map fst feats) \<union> set (map fst rollc)" "k = k' @ ''_p5min_norm''"
      by simp_all
    show False
    proof (cases "k \<in> set (map fst feats)")
      case True
      with assms base_name_no_suffix(2) [of k k'] k(2) show False by blast
    next
      case False
      with k(1) have "k \<in> set (map fst rollc)" by simp
      then obtain k'' where "k = k'' @ ''_c5min_norm''" unfolding nc by (auto simp: image_iff)
      with k(2) show False by simp
    qed
  qed
  have "smooth feats = (case join feats rollc of Inl e \<Rightarrow> Inl e | Inr f \<Rightarrow> join f rollp)"
    by (simp only: smooth_def rollc_def rollp_def Let_def)
  also have "\<dots> = Inr (feats @ rollc @ rollp)"
    by (simp add: join_disjoint [OF d1] join_disjoint [OF d2])
  finally have "smooth feats = Inr (feats @ rollc @ rollp)" .
  then show ?thesis
    unfolding rollc_def rollp_def add_suffix_def rolling_centered_spec rolling_past_spec
    by (simp add: case_prod_beta comp_def)
qed

text \<open>
  The claim as stated fails where the percentile range is zero and is replaced by one.
  A base column of twenty zeros and a ten has the past-only rolling mean of twenty
  zeros and a one; robust scaling returns that column as it is, and doubling the column
  doubles the result.
\<close>

theorem robust_scale_scale_counterexample:
  "rolling_mean 10 False 1 None
      [Some 0, Some 0, Some 0, Some 0, Some 0, Some 0, Some 0, Some 0, Some 0, Some 0,
       Some 0, Some 0, Some 0, Some 0, Some 0, Some 0, Some 0, Some 0, Some 0, Some 0, Some 10]
     = [Some 0, Some 0, Some 0, Some 0, Some 0, Some 0, Some 0, Some 0, Some 0, Some 0,
       Some 0, Some 0, Some 0, Some 0, Some 0, Some 0, Some 0, Some 0, Some 0, Some 0, Some 1]
   \<and> robust_scale (5, 95)
      [Some 0, Some 0, Some 0, Some 0, Some 0, Some 0, Some 0, Some 0, Some 0, Some 0,
       Some 0, Some 0, Some 0, Some 0, Some 0, Some 0, Some 0, Some 0, Some 0, Some 0, Some 1]
     = [Some 0, Some 0, Some 0, Some 0, Some 0, Some 0, Some 0, Some 0, Some 0, Some 0,
       Some 0, Some 0, Some 0, Some 0, Some 0, Some 0, Some 0, Some 0, Some 0, Some 0, Some 1]
   \<and> robust_scale (5, 95) (rescale_column 2 0
      [Some 0, Some 0, Some 0, Some 0, Some 0, Some 0, Some 0, Some 0, Some 0, Some 0,
       Some 0, Some 0, Some 0, Some 0, Some 0, Some 0, Some 0, Some 0, Some 0, Some 0, Some 1])
     = [Some 0, Some 0, Some 0, Some 0, Some 0, Some 0, Some 0, Some 0, Some 0, Some 0,
       Some 0, Some 0, Some 0, Some 0, Some 0, Some 0, Some 0, Some 0, Some 0, Some 0, Some 2]"
proof -
  have "rolling_mean 10 False 1 None
      [Some 0, Some 0, Some 0, Some 0, Some 0, Some 0, Some 0, Some 0, Some 0, Some 0,
       Some 0, Some 0, Some 0, Some 0, Some 0, Some 0, Some 0, Some 0, Some 0, Some 0, Some 10]
     = [Some 0, Some 0, Some 0, Some 0, Some 0, Some 0, Some 0, Some 0, Some 0, Some 0,
       Some 0, Some 0, Some 0, Some 0, Some 0, Some 0, Some 0, Some 0, Some 0, Some 0, Some 1]"
    by (simp only: rolling_past_spec) (simp add: spec_past_mean_def spec_window_mean_def upt_rec)
  then show ?thesis
    by (simp add: robust_scale_def rescale_column_def valid_samples_def median_def percentile_def
          Let_def)
qed

text \<open>
  C4. For a table of base feature columns, smoothing keeps every base column and appends,
  for each of them, the robust-scaled (median, 5th to 95th percentile range) centered
  triangular mean over 11 epochs under the suffix \<open>_c5min_norm\<close>, and the robust-scaled
  mean of the current and the 9 preceding epochs under the suffix \<open>_p5min_norm\<close>; each
  mean is taken over the valid samples in its window, one being enough.
\<close>

theorem smooth_appends_both_means:
  assumes "set (map fst feats) \<subseteq> set (base_names [EEG, EOG, EMG])"
  shows "smooth feats =
     Inr (feats
          @ map (\<lambda>(k, col). (k @ ''_c5min_norm'',
                   map PFloat (robust_scale (5, 95) (spec_centered_mean (map to_float col))))) feats
          @ map (\<lambda>(k, col). (k @ ''_p5min_norm'',
                   map PFloat (robust_scale (5, 95) (spec_past_mean (map to_float col))))) feats)"
  using assms by (rule smooth_base)

theorem smooth_appends_both_means_witness:
  "set (map fst [(''eeg_std'', [PFloat (Some 1), PFloat (Some 2), PFloat (Some 4)])])
     \<subseteq> set (base_names [EEG, EOG, EMG])
   \<and> smooth [(''eeg_std'', [PFloat (Some 1), PFloat (Some 2), PFloat (Some 4)])]
       = Inr [(''eeg_std'', [PFloat (Some 1), PFloat (Some 2), PFloat (Some 4)]),
              (''eeg_std_c5min_norm'',
                 map PFloat (robust_scale (5, 95) (spec_centered_mean [Some 1, Some 2, Some 4]))),
              (''eeg_std_p5min_norm'',
                 map PFloat (robust_scale (5, 95) (spec_past_mean [Some 1, Some 2, Some 4])))]
   \<and> spec_centered_mean [Some 1, Some 2, Some 4] = [Some (32 / 15), Some (37 / 16), Some (38 / 15)]
   \<and> spec_past_mean [Some 1, Some 2, Some 4] = [Some 1, Some (3 / 2), Some (7 / 3)]"
proof -
  have b: "set (map fst [(''eeg_std'', [PFloat (Some 1), PFloat (Some 2), PFloat (Some 4)])])
             \<subseteq> set (base_names [EEG, EOG, EMG])"
    by (simp add: base_names_def feature_keys_def)
  have c: "spec_centered_mean [Some 1, Some 2, Some 4] = [Some (32 / 15), Some (37 / 16), Some (38 / 15)]"
    by (simp add: spec_centered_mean_def spec_window_mean_def upt_rec)
  have p: "spec_past_mean [Some 1, Some 2, Some 4] = [Some 1, Some (3 / 2), Some (7 / 3)]"
    by (simp add: spec_past_mean_def spec_window_mean_def upt_rec)
  from smooth_appends_both_means [OF b] b c p show ?thesis by simp
qed

subsection \<open>Feature extraction for one channel\<close>

lemma length_chunks [simp]: "length (chunks m k xs) = k"
  by (induction k arbitrary: xs) auto

lemma sliding_window_lengths:
  "length (fst (sliding_window x sfreq w)) = length (snd (sliding_window x sfreq w))"
  by (simp add: sliding_window_def Let_def)

lemma length_mobility [simp]: "length (mobility x) = length x"
  by (simp add: mobility_def diff_def)

lemma length_petrosian [simp]: "length (petrosian x) = length x"
  by (simp add: petrosian_def Let_def nzc_def diff_def)

lemma length_nzc [simp]: "length (nzc x) = length x"
  by (simp add: nzc_def)

lemma length_diff [simp]: "length (diff x) = length x"
  by (simp add: diff_def)

lemma keys_update: "map fst (AList.update k v al) = add_key (map fst al) k"
  by (simp add: add_key_def update_keys image_iff)

lemma rows_update: "rows n al \<Longrightarrow> length v = n \<Longrightarrow> rows n (AList.update k v al)"
  by (induction al) (auto simp: rows_def)

lemma rows_Nil [simp]: "rows n []"
  by (simp add: rows_def)

lemma rows_Cons [simp]: "rows n ((k, col) # al) \<longleftrightarrow> length col = n \<and> rows n al"
  by (simp add: rows_def)

lemma map_of_update_other: "k' \<noteq> k \<Longrightarrow> map_of (AList.update k v al) k' = map_of al k'"
  by (simp add: update_conv')

lemma descriptive_keys:
  "map fst (descriptive_features ext epochs)
     = [''std'', ''iqr'', ''skew'', ''kurt'', ''nzc'', ''hmob'', ''hcomp'']"
  by (simp add: descriptive_features_def Let_def)

lemma descriptive_rows: "rows (length epochs) (descriptive_features ext epochs)"
  by (simp add: descriptive_features_def Let_def)

lemma descriptive_std:
  "map_of (descriptive_features ext epochs) ''std''
     = Some (map (\<lambda>e. PFloat (std_ddof1_row e)) epochs)"
  by (simp add: descriptive_features_def Let_def)

lemma foldl_bands_keys:
  "map fst (foldl (\<lambda>f (j, (lo, hi, b)). AList.update b (g j) f) feat js)
     = foldl add_key (map fst feat) (map (\<lambda>(j, (lo, hi, b)). b) js)"
  by (induction js arbitrary: feat) (auto simp: keys_update)

lemma foldl_bands_rows:
  "rows n feat \<Longrightarrow> (\<And>j. length (g j) = n)
     \<Longrightarrow> rows n (foldl (\<lambda>f (j, (lo, hi, b)). AList.update b (g j) f) feat js)"
  by (induction js arbitrary: feat) (auto simp: rows_update)

lemma foldl_bands_map_of:
  "k \<notin> set (map (\<lambda>(j, (lo, hi, b)). b) js)
     \<Longrightarrow> map_of (foldl (\<lambda>f (j, (lo, hi, b)). AList.update b (g j) f) feat js) k = map_of feat k"
  by (induction js arbitrary: feat) (auto simp: map_of_update_other)

lemma band_names: "map (\<lambda>(j, (lo, hi, b)). b) (enumerate 0 bands) = map (\<lambda>(lo, hi, b). b) bands"
  by (simp add: bands_def)


lemma spectral_keys:
  "map fst (spectral_features ext c psd freqs feat)
     = foldl add_key (map fst feat) (if c \<noteq> EMG then map (\<lambda>(lo, hi, b). b) bands else [])"
  by (simp add: spectral_features_def foldl_bands_keys band_names)

lemma spectral_rows:
  "rows (length psd) feat \<Longrightarrow> rows (length psd) (spectral_features ext c psd freqs feat)"
  by (simp add: spectral_features_def foldl_bands_rows)

lemma spectral_std:
  "map_of (spectral_features ext c psd freqs feat) ''std'' = map_of feat ''std''"
proof -
  have "''std'' \<notin> set (map (\<lambda>(j, (lo, hi, b)). b) (enumerate 0 bands))"
    by (simp add: bands_def)
  then show ?thesis
    by (simp add: spectral_features_def foldl_bands_map_of)
qed

lemma fcol_update_other: "k' \<noteq> k \<Longrightarrow> fcol (AList.update k v al) k' = fcol al k'"
  by (simp add: fcol_def map_of_update_other)

lemma length_fcol:
  assumes "rows n al" and "k \<in> set (map fst al)"
  shows "length (fcol al k) = n"
proof -
  from assms(2) obtain col where c: "map_of al k = Some col"
    by (cases "map_of al k") (auto simp: map_of_eq_None_iff)
  then have "(k, col) \<in> set al" by (rule map_of_SomeD)
  with assms(1) have "length col = n" by (auto simp: rows_def list_all_iff)
  with c show ?thesis by (simp add: fcol_def)
qed

lemma ratios_keys:
  "map fst (power_ratios c feat)
     = foldl add_key (map fst feat) (if c = EEG then [''dt'', ''ds'', ''db'', ''at''] else [])"
  by (simp add: power_ratios_def Let_def keys_update)

lemma ratios_rows:
  assumes "rows n feat"
    and "c = EEG \<Longrightarrow> set [''sdelta'', ''fdelta'', ''theta'', ''alpha'', ''sigma'', ''beta''] \<subseteq> set (map fst feat)"
  shows "rows n (power_ratios c feat)"
proof (cases "c = EEG")
  case False
  with assms(1) show ?thesis by (simp add: power_ratios_def)
next
  case True
  with assms(2) have l: "length (fcol feat ''sdelta'') = n" "length (fcol feat ''fdelta'') = n"
    "length (fcol feat ''theta'') = n" "length (fcol feat ''alpha'') = n"
    "length (fcol feat ''sigma'') = n" "length (fcol feat ''beta'') = n"
    by (simp_all add: length_fcol [OF assms(1)])
  show ?thesis
    using True assms(1) l
    by (simp add: power_ratios_def Let_def fcol_update_other rows_update)
qed

lemma ratios_std:
  "map_of (power_ratios c feat) ''std'' = map_of feat ''std''"
  by (simp add: power_ratios_def Let_def map_of_update_other)

lemma nonlinear_keys:
  "map fst (nonlinear_features ext epochs psd freqs dx feat)
     = foldl add_key (map fst feat) [''abspow'', ''perm'', ''higuchi'', ''petrosian'']"
  by (simp add: nonlinear_features_def Let_def keys_update)

lemma nonlinear_rows:
  "rows (length epochs) feat \<Longrightarrow> length psd = length epochs
     \<Longrightarrow> rows (length epochs) (nonlinear_features ext epochs psd freqs dx feat)"
  by (simp add: nonlinear_features_def Let_def rows_update)

lemma nonlinear_std:
  "map_of (nonlinear_features ext epochs psd freqs dx feat) ''std'' = map_of feat ''std''"
  by (simp add: nonlinear_features_def Let_def map_of_update_other)


lemma keys_chain:
  "foldl add_key
     (foldl add_key
        (foldl add_key [''std'', ''iqr'', ''skew'', ''kurt'', ''nzc'', ''hmob'', ''hcomp'']
           (if c \<noteq> EMG then map (\<lambda>(lo, hi, b). b) bands else []))
        (if c = EEG then [''dt'', ''ds'', ''db'', ''at''] else []))
     [''abspow'', ''perm'', ''higuchi'', ''petrosian'']
   = feature_keys c"
  by (cases c) (simp_all add: add_key_def feature_keys_def bands_def)

lemma eeg_band_keys:
  "set [''sdelta'', ''fdelta'', ''theta'', ''alpha'', ''sigma'', ''beta'']
     \<subseteq> set (foldl add_key [''std'', ''iqr'', ''skew'', ''kurt'', ''nzc'', ''hmob'', ''hcomp'']
               (map (\<lambda>(lo, hi, b). b) bands))"
  by (simp add: add_key_def bands_def)

lemma map_fst_add_prefix: "map fst (add_prefix pfx f) = map (\<lambda>k. pfx @ k) (map fst f)"
  by (simp add: add_prefix_def case_prod_beta)

lemma rows_add_prefix: "rows n (add_prefix pfx f) = rows n f"
  by (simp add: add_prefix_def rows_def list_all_iff case_prod_beta)

lemma map_of_add_prefix: "map_of (add_prefix pfx f) (pfx @ k) = map_of f k"
  by (induction f) (auto simp: add_prefix_def)

lemma channel_features_unfold:
  assumes "welch_freqs ext sfreq (nat \<lfloor>5 * sfreq\<rfloor>) = f0 # f1 # fs"
  shows "channel_features ext sfreq c x =
     (let sw = sliding_window (filter_data ext x sfreq 0.4 30) sfreq 30;
          epochs = snd sw;
          psd = map (welch_psd ext sfreq (nat \<lfloor>5 * sfreq\<rfloor>)) epochs
      in Inr (fst sw,
              add_prefix (ch_type_name c @ ''_'')
                (nonlinear_features ext epochs psd (f0 # f1 # fs) (f1 - f0)
                   (power_ratios c
                      (spectral_features ext c psd (f0 # f1 # fs)
                         (descriptive_features ext epochs))))))"
  by (simp only: channel_features_def Let_def case_prod_beta assms list.case)

lemma channel_features_props:
  assumes "welch_freqs ext sfreq (nat \<lfloor>5 * sfreq\<rfloor>) = f0 # f1 # fs"
  shows "\<exists>fr. channel_features ext sfreq c x
                 = Inr (fst (sliding_window (filter_data ext x sfreq 0.4 30) sfreq 30), fr)
              \<and> map fst fr = map (\<lambda>k. ch_type_name c @ ''_'' @ k) (feature_keys c)
              \<and> rows (length (fst (sliding_window (filter_data ext x sfreq 0.4 30) sfreq 30))) fr
              \<and> map_of fr (ch_type_name c @ ''_'' @ ''std'')
                   = Some (map (\<lambda>e. PFloat (std_ddof1_row e))
                             (snd (sliding_window (filter_data ext x sfreq 0.4 30) sfreq 30)))"
proof -
  define epochs where "epochs = snd (sliding_window (filter_data ext x sfreq 0.4 30) sfreq 30)"
  define psd where "psd = map (welch_psd ext sfreq (nat \<lfloor>5 * sfreq\<rfloor>)) epochs"
  define d where "d = descriptive_features ext epochs"
  define s where "s = spectral_features ext c psd (f0 # f1 # fs) d"
  define r where "r = power_ratios c s"
  define nl where "nl = nonlinear_features ext epochs psd (f0 # f1 # fs) (f1 - f0) r"
  have len: "length (fst (sliding_window (filter_data ext x sfreq 0.4 30) sfreq 30)) = length epochs"
    by (simp add: epochs_def sliding_window_lengths)
  have lp: "length psd = length epochs" by (simp add: psd_def)
  have kd: "map fst d = [''std'', ''iqr'', ''skew'', ''kurt'', ''nzc'', ''hmob'', ''hcomp'']"
    by (simp add: d_def descriptive_keys)
  have ks: "map fst s = foldl add_key (map fst d) (if c \<noteq> EMG then map (\<lambda>(lo, hi, b). b) bands else [])"
    by (simp only: s_def spectral_keys)
  have keys: "map fst nl = feature_keys c"
    by (simp only: nl_def r_def nonlinear_keys ratios_keys ks kd keys_chain)
  have rd: "rows (length epochs) d" by (simp add: d_def descriptive_rows)
  have rs: "rows (length epochs) s"
    using spectral_rows [of psd d ext c "f0 # f1 # fs"] rd by (simp add: s_def lp)
  have "c = EEG \<Longrightarrow> set [''sdelta'', ''fdelta'', ''theta'', ''alpha'', ''sigma'', ''beta''] \<subseteq> set (map fst s)"
    using eeg_band_keys by (simp only: ks kd) simp
  with rs have rr: "rows (length epochs) r"
    unfolding r_def by (rule ratios_rows)
  have rn: "rows (length epochs) nl"
    unfolding nl_def using rr lp by (rule nonlinear_rows)
  have std: "map_of nl ''std'' = Some (map (\<lambda>e. PFloat (std_ddof1_row e)) epochs)"
    by (simp only: nl_def r_def s_def d_def nonlinear_std ratios_std spectral_std descriptive_std)
  have "channel_features ext sfreq c x
          = Inr (fst (sliding_window (filter_data ext x sfreq 0.4 30) sfreq 30),
                 add_prefix (ch_type_name c @ ''_'') nl)"
    by (simp only: channel_features_unfold [OF assms] Let_def nl_def r_def s_def d_def psd_def epochs_def)
  moreover have "map fst (add_prefix (ch_type_name c @ ''_'') nl)
                   = map (\<lambda>k. ch_type_name c @ ''_'' @ k) (feature_keys c)"
    by (simp add: map_fst_add_prefix keys)
  moreover have "rows (length (fst (sliding_window (filter_data ext x sfreq 0.4 30) sfreq 30)))
                   (add_prefix (ch_type_name c @ ''_'') nl)"
    by (simp only: rows_add_prefix len rn)
  moreover have "map_of (add_prefix (ch_type_name c @ ''_'') nl) (ch_type_name c @ ''_'' @ ''std'')
                   = Some (map (\<lambda>e. PFloat (std_ddof1_row e)) epochs)"
    using map_of_add_prefix [of "ch_type_name c @ ''_''" nl "''std''"] std by simp
  ultimately show ?thesis
    unfolding epochs_def by blast
qed

lemma channel_table_props:
  assumes "welch_freqs ext sfreq (nat \<lfloor>5 * sfreq\<rfloor>) = f0 # f1 # fs"
  shows "channel_features ext sfreq c x
           = Inr (fst (sliding_window (filter_data ext x sfreq 0.4 30) sfreq 30),
                  channel_table ext sfreq c x)"
    and "map fst (channel_table ext sfreq c x)
           = map (\<lambda>k. ch_type_name c @ ''_'' @ k) (feature_keys c)"
    and "rows (length (snd (sliding_window (filter_data ext x sfreq 0.4 30) sfreq 30)))
           (channel_table ext sfreq c x)"
    and "map_of (channel_table ext sfreq c x) (ch_type_name c @ ''_'' @ ''std'')
           = Some (map (\<lambda>e. PFloat (std_ddof1_row e))
                     (snd (sliding_window (filter_data ext x sfreq 0.4 30) sfreq 30)))"
proof -
  from channel_features_props [OF assms, of c x] obtain fr where
    fr: "channel_features ext sfreq c x
           = Inr (fst (sliding_window (filter_data ext x sfreq 0.4 30) sfreq 30), fr)"
      "map fst fr = map (\<lambda>k. ch_type_name c @ ''_'' @ k) (feature_keys c)"
      "rows (length (fst (sliding_window (filter_data ext x sfreq 0.4 30) sfreq 30))) fr"
      "map_of fr (ch_type_name c @ ''_'' @ ''std'')
         = Some (map (\<lambda>e. PFloat (std_ddof1_row e))
                   (snd (sliding_window (filter_data ext x sfreq 0.4 30) sfreq 30)))"
    by blast
  have t: "channel_table ext sfreq c x = fr"
    by (simp add: channel_table_def fr(1))
  show "channel_features ext sfreq c x
           = Inr (fst (sliding_window (filter_data ext x sfreq 0.4 30) sfreq 30),
                  channel_table ext sfreq c x)"
    by (simp only: t fr(1))
  show "map fst (channel_table ext sfreq c x)
           = map (\<lambda>k. ch_type_name c @ ''_'' @ k) (feature_keys c)"
    by (simp only: t fr(2))
  show "rows (length (snd (sliding_window (filter_data ext x sfreq 0.4 30) sfreq 30)))
           (channel_table ext sfreq c x)"
    using fr(3) by (simp only: t sliding_window_lengths)
  show "map_of (channel_table ext sfreq c x) (ch_type_name c @ ''_'' @ ''std'')
           = Some (map (\<lambda>e. PFloat (std_ddof1_row e))
                     (snd (sliding_window (filter_data ext x sfreq 0.4 30) sfreq 30)))"
    by (simp only: t fr(4))
qed

lemma calculate_features_eq:
  assumes "welch_freqs ext (sf self) (nat \<lfloor>5 * sf self\<rfloor>) = f0 # f1 # fs"
    and "\<forall>ic \<in> set ics. fst ic < length (data self)"
  shows "calculate_features ext self ics (t0, fs0)
           = Inr (if ics = [] then t0 else channel_times ext self (fst (last ics)),
                  fs0 @ map (\<lambda>ic. channel_table ext (sf self) (snd ic) (data self ! fst ic)) ics)"
  using assms(2)
proof (induction ics arbitrary: t0 fs0)
  case Nil
  then show ?case by simp
next
  case (Cons ic ics)
  obtain i c where ic: "ic = (i, c)" by (cases ic)
  from Cons.prems ic have i: "i < length (data self)" by simp
  from Cons.prems have rest: "\<forall>ic \<in> set ics. fst ic < length (data self)" by simp
  show ?case
    using i
    by (simp add: ic channel_table_props(1) [OF assms(1)] Cons.IH [OF rest] channel_times_def)
qed

lemma pad_id: "\<not> length col < n \<Longrightarrow> pad n col = col"
  by (simp add: pad_def)

lemma foldr_max_const:
  "\<forall>x \<in> set xs. x = (n::nat) \<Longrightarrow> foldr max xs 0 = (if xs = [] then 0 else n)"
  by (induction xs) auto

lemma concat_frames_rows:
  assumes "fs \<noteq> []" and "\<forall>f \<in> set fs. rows n f"
  shows "concat_frames fs = Inr (concat fs)"
proof -
  have all: "\<forall>kc \<in> set (concat fs). length (snd kc) = n"
    using assms(2) by (auto simp: rows_def list_all_iff)
  then have "\<forall>x \<in> set (map (\<lambda>kc. length (snd kc)) (concat fs)). x = n" by auto
  then have "foldr max (map (\<lambda>kc. length (snd kc)) (concat fs)) 0
                  = (if map (\<lambda>kc. length (snd kc)) (concat fs) = [] then 0 else n)"
    by (rule foldr_max_const)
  then have m: "foldr max (map (\<lambda>kc. length (snd kc)) (concat fs)) 0
                  = (if concat fs = [] then 0 else n)"
    by (simp only: map_is_Nil_conv)
  have "(case kc of (k, col) \<Rightarrow> (k, pad (if concat fs = [] then 0 else n) col)) = kc"
    if "kc \<in> set (concat fs)" for kc
  proof -
    from that all have "length (snd kc) = n" by blast
    moreover from that have "concat fs \<noteq> []" by (cases "concat fs") simp_all
    ultimately show ?thesis by (cases kc) (simp add: pad_id)
  qed
  then have "map (\<lambda>(k, col). (k, pad (foldr max (map (\<lambda>kc. length (snd kc)) (concat fs)) 0) col)) (concat fs)
          = concat fs"
    unfolding m by (intro map_idI)
  with assms(1) show ?thesis
    by (simp add: concat_frames_def Let_def)
qed

subsection \<open>Column names of the feature table\<close>

lemma keys_downcast: "map fst (downcast ext f) = map fst f"
  by (simp add: downcast_def case_prod_beta)

lemma map_of_downcast:
  "map_of (downcast ext f) k = map_option (downcast_column ext) (map_of f k)"
  by (induction f) (auto simp: downcast_def)

lemma column_astype_int_keys:
  assumes "column_astype_int ext k f = Inr f'"
  shows "map fst f' = map fst f"
proof (cases "map_of f k")
  case None
  with assms show ?thesis by (simp add: column_astype_int_def)
next
  case (Some col)
  then have k: "k \<in> set (map fst f)"
    by (metis map_of_eq_None_iff option.distinct(1) set_map)
  from assms Some obtain col' where "f' = AList.update k col' f"
    by (auto simp: column_astype_int_def split: sum.splits)
  with k show ?thesis
    by (simp only: keys_update add_key_def if_True)
qed

lemma sort_index_keys: "map fst (sort_index f) = sort (map fst f)"
  unfolding sort_index_def
  by (rule properties_for_sort [symmetric]) simp_all

lemma map_of_filter_first:
  "map_of f k = (case filter (\<lambda>p. fst p = k) f of [] \<Rightarrow> None | p # ps \<Rightarrow> Some (snd p))"
  by (induction f) auto

lemma map_of_sort_index: "map_of (sort_index f) k = map_of f k"
proof -
  have st: "filter (\<lambda>p. fst p = k) (sort_key fst f) = filter (\<lambda>p. fst p = k) f"
    by (rule sort_key_stable)
  have "map_of (sort_key fst f) k
          = (case filter (\<lambda>p. fst p = k) (sort_key fst f) of [] \<Rightarrow> None | p # ps \<Rightarrow> Some (snd p))"
    by (rule map_of_filter_first)
  also have "\<dots> = (case filter (\<lambda>p. fst p = k) f of [] \<Rightarrow> None | p # ps \<Rightarrow> Some (snd p))"
    by (simp only: st)
  also have "\<dots> = map_of f k"
    by (rule map_of_filter_first [symmetric])
  finally show ?thesis by (simp only: sort_index_def)
qed

lemma foldl_metadata_keys:
  "map fst (foldl (\<lambda>g (c, v). AList.update c (replicate n v) g) f d)
     = foldl add_key (map fst f) (map fst d)"
  by (induction d arbitrary: f) (auto simp: keys_update)

lemma add_metadata_keys:
  assumes "add_metadata h self f = Inr f'"
  shows "map fst f' = foldl add_key (map fst f) (metadata_keys h self)"
  using assms
  by (auto simp: add_metadata_def metadata_keys_def foldl_metadata_keys
           split: option.splits if_splits obj.splits)

lemma finalize_keys:
  assumes "finalize ext h self t sm = Inr f"
  shows "map fst f = sort (foldl add_key (map fst sm) ([''time_hour'', ''time_norm''] @ metadata_keys h self))"
proof -
  define f2 where
    "f2 = AList.update ''time_norm'' (map (\<lambda>x. PFloat (fdiv (Some x) (Some (last t)))) t)
            (AList.update ''time_hour'' (map (\<lambda>x. PFloat (Some (x / 3600))) t) sm)"
  from assms obtain f3 f4 f5 where
    s: "add_metadata h self f2 = Inr f3"
       "column_astype_int ext ''age'' (downcast ext f3) = Inr f4"
       "column_astype_int ext ''male'' f4 = Inr f5"
       "f = sort_index f5"
    by (auto simp: finalize_def Let_def f2_def split: if_splits sum.splits)
  have "map fst f2 = foldl add_key (map fst sm) [''time_hour'', ''time_norm'']"
    by (simp add: f2_def keys_update)
  then have "map fst f3 = foldl add_key (map fst sm) ([''time_hour'', ''time_norm''] @ metadata_keys h self)"
    by (simp add: add_metadata_keys [OF s(1)])
  then show ?thesis
    by (simp only: s(4) sort_index_keys column_astype_int_keys [OF s(3)]
          column_astype_int_keys [OF s(2)] keys_downcast)
qed

lemma channel_features_success_freqs:
  assumes "channel_features ext sfreq c x = Inr r"
  shows "\<exists>f0 f1 fs. welch_freqs ext sfreq (nat \<lfloor>5 * sfreq\<rfloor>) = f0 # f1 # fs"
proof (cases "welch_freqs ext sfreq (nat \<lfloor>5 * sfreq\<rfloor>)")
  case Nil
  with assms show ?thesis
    by (simp add: channel_features_def Let_def case_prod_beta)
next
  case (Cons f0 rest)
  with assms show ?thesis
    by (cases rest) (simp_all add: channel_features_def Let_def case_prod_beta)
qed

lemma channel_features_names:
  assumes "channel_features ext sfreq c x = Inr (t, fr)"
  shows "map fst fr = map (\<lambda>k. ch_type_name c @ ''_'' @ k) (feature_keys c)"
proof -
  from channel_features_success_freqs [OF assms] obtain f0 f1 fs
    where "welch_freqs ext sfreq (nat \<lfloor>5 * sfreq\<rfloor>) = f0 # f1 # fs" by blast
  from channel_table_props(1,2) [OF this, of c x] assms show ?thesis by simp
qed

lemma calculate_features_names:
  assumes "calculate_features ext self ics (t0, fs0) = Inr (t, fs)"
  shows "concat (map (map fst) fs) = concat (map (map fst) fs0) @ base_names (map snd ics)"
  using assms
proof (induction ics arbitrary: t0 fs0)
  case Nil
  then show ?case by (simp add: base_names_def)
next
  case (Cons ic ics)
  obtain i c where ic: "ic = (i, c)" by (cases ic)
  from Cons.prems ic obtain t1 fr where
    cf: "channel_features ext (sf self) c (data self ! i) = Inr (t1, fr)"
    and rest: "calculate_features ext self ics (t1, fs0 @ [fr]) = Inr (t, fs)"
    by (auto split: if_splits sum.splits)
  from Cons.IH [OF rest] channel_features_names [OF cf] show ?case
    by (simp add: ic base_names_def)
qed

lemma concat_frames_keys:
  "concat_frames fs = Inr feats \<Longrightarrow> map fst feats = concat (map (map fst) fs)"
  by (auto simp: concat_frames_def Let_def map_concat case_prod_beta comp_def split: if_splits)

lemma join_keys: "join l r = Inr f \<Longrightarrow> f = l @ r"
  by (auto simp: join_def Let_def split: if_splits)

lemma smooth_keys:
  assumes "smooth feats = Inr sm"
  shows "map fst sm = map fst feats @ map (\<lambda>k. k @ ''_c5min_norm'') (map fst feats)
                        @ map (\<lambda>k. k @ ''_p5min_norm'') (map fst feats)"
proof -
  from assms obtain rollc rollp where
    "sm = (feats @ add_suffix ''_c5min_norm'' rollc) @ add_suffix ''_p5min_norm'' rollp"
    "map fst rollc = map fst feats" "map fst rollp = map fst feats"
    by (auto simp: smooth_def Let_def case_prod_beta comp_def split: sum.splits dest!: join_keys)
  then show ?thesis
    by (simp add: map_fst_add_suffix)
qed

lemma fit_features_keys:
  assumes "fit_features ext h self = Inr f"
  shows "map fst f = column_order (ch_types self) (metadata_keys h self)"
proof -
  from assms obtain t fs feats sm where
    s: "calculate_features ext self (enumerate 0 (ch_types self)) ([], []) = Inr (t, fs)"
       "concat_frames fs = Inr feats" "smooth feats = Inr sm"
       "finalize ext h self t sm = Inr f"
    by (auto simp: fit_features_def split: sum.splits prod.splits)
  have "map fst feats = base_names (ch_types self)"
    using calculate_features_names [OF s(1)] concat_frames_keys [OF s(2)]
    by simp
  with smooth_keys [OF s(3)] finalize_keys [OF s(4)] show ?thesis
    by (simp only: column_order_def)
qed

text \<open>
  C3. After a successful fit the column names of the feature table are sorted, and they
  are the value of \<open>column_order\<close> at the channel types of the instance and the keys
  of its metadata: the signal data have no part in the column order.
\<close>

theorem fit_columns_sorted:
  assumes "fit ext h self = (h', self', Inr ())"
  shows "\<exists>f. h' = h @ [Frame f] \<and> features self' = Some (length h)
             \<and> feature_name self' = Some (map fst f)
             \<and> sorted (map fst f)
             \<and> map fst f = column_order (ch_types self) (metadata_keys h self)"
proof -
  from assms obtain f where f: "fit_features ext h self = Inr f"
    and r: "h' = h @ [Frame f]" "self' = self\<lparr>features := Some (length h), feature_name := Some (map fst f)\<rparr>"
    by (auto simp: fit_def alloc_def Let_def split: sum.splits)
  have "sorted (map fst f)"
    by (simp add: fit_features_keys [OF f] column_order_def)
  with r fit_features_keys [OF f] show ?thesis by simp
qed

subsection \<open>A fit that runs through\<close>

lemma nrows_update: "length v = nrows f \<Longrightarrow> nrows (AList.update k v f) = nrows f"
  by (cases f) (auto simp: nrows_def)

lemma foldl_metadata_map_of:
  assumes "distinct (map fst d)"
  shows "map_of (foldl (\<lambda>g (c, v). AList.update c (replicate n v) g) f d) k
           = (case map_of d k of Some v \<Rightarrow> Some (replicate n v) | None \<Rightarrow> map_of f k)"
  using assms
proof (induction d arbitrary: f)
  case Nil
  then show ?case by simp
next
  case (Cons cv d)
  obtain c v where cv: "cv = (c, v)" by (cases cv)
  from Cons.prems cv have d: "distinct (map fst d)" and c: "c \<notin> set (map fst d)" by simp_all
  from c have n: "map_of d c = None" by (simp add: map_of_eq_None_iff)
  show ?case
    using n by (auto simp: cv Cons.IH [OF d] update_conv' split: option.splits)
qed

lemma add_metadata_ready:
  assumes "metadata_ready h self"
  shows "\<exists>f'. add_metadata h self f = Inr f'
              \<and> (\<forall>k. map_of f' k = (case metadata_value h self k of
                                       Some v \<Rightarrow> Some (replicate (nrows f) v)
                                     | None \<Rightarrow> map_of f k))"
proof (cases "metadata self")
  case None
  then show ?thesis by (simp add: add_metadata_def metadata_value_def)
next
  case (Some a)
  with assms obtain d where d: "a < length h" "h ! a = Dict d" "distinct (map fst d)"
    by (auto simp: metadata_ready_def split: obj.splits)
  then show ?thesis
    using Some by (simp add: add_metadata_def metadata_value_def foldl_metadata_map_of)
qed

lemma py_int_castable: "castable v \<Longrightarrow> \<exists>i. py_int ext v = Inr i"
  by (auto simp: castable_def py_int_def split: pyval.splits option.splits)

lemma astype_int_castable: "list_all castable col \<Longrightarrow> \<exists>col'. astype_int ext col = Inr col'"
proof (induction col)
  case Nil
  then show ?case by simp
next
  case (Cons v col)
  then obtain i col' where "py_int ext v = Inr i" "astype_int ext col = Inr col'"
    using py_int_castable [of v ext] by auto
  then show ?case by simp
qed

lemma column_astype_int_ok:
  assumes "\<And>col. map_of f k = Some col \<Longrightarrow> list_all castable col"
  shows "\<exists>f'. column_astype_int ext k f = Inr f' \<and> (\<forall>k'. k' \<noteq> k \<longrightarrow> map_of f' k' = map_of f k')"
proof (cases "map_of f k")
  case None
  then show ?thesis by (simp add: column_astype_int_def)
next
  case (Some col)
  from astype_int_castable [OF assms [OF Some]] obtain col' where "astype_int ext col = Inr col'"
    by blast
  with Some show ?thesis
    by (simp add: column_astype_int_def update_conv')
qed

lemma downcast_column_replicate:
  "downcast_column ext (replicate n v) = replicate n (downcast_cell ext v)"
  by (cases v) (auto simp: downcast_column_def downcast_cell_def list_all_iff)

lemma castable_downcast_cell: "castable v \<Longrightarrow> castable (downcast_cell ext v)"
  by (auto simp: castable_def downcast_cell_def split: pyval.splits option.splits)

lemma finalize_ready:
  assumes len: "length t = nrows sm" and t: "t \<noteq> []"
    and md: "metadata_ready h self"
    and age: "''age'' \<notin> set (map fst sm)" and male: "''male'' \<notin> set (map fst sm)"
  shows "\<exists>f. finalize ext h self t sm = Inr f
             \<and> (\<forall>k v. k \<noteq> ''age'' \<longrightarrow> k \<noteq> ''male'' \<longrightarrow> metadata_value h self k = Some v \<longrightarrow>
                   map_of f k = Some (replicate (length t) (downcast_cell ext v)))
             \<and> (\<forall>k. k \<noteq> ''age'' \<longrightarrow> k \<noteq> ''male'' \<longrightarrow> k \<noteq> ''time_hour'' \<longrightarrow> k \<noteq> ''time_norm'' \<longrightarrow>
                   metadata_value h self k = None \<longrightarrow>
                   map_of f k = map_option (downcast_column ext) (map_of sm k))"
proof -
  define f1 where "f1 = AList.update ''time_hour'' (map (\<lambda>x. PFloat (Some (x / 3600))) t) sm"
  define f2 where
    "f2 = AList.update ''time_norm'' (map (\<lambda>x. PFloat (fdiv (Some x) (Some (last t)))) t) f1"
  have n1: "nrows f1 = length t" by (simp add: f1_def nrows_update len)
  have n2: "nrows f2 = length t" by (simp add: f2_def nrows_update n1)
  from add_metadata_ready [OF md, of f2] obtain f3 where
    f3: "add_metadata h self f2 = Inr f3"
    and m3': "\<forall>k. map_of f3 k = (case metadata_value h self k of
                                   Some v \<Rightarrow> Some (replicate (nrows f2) v)
                                 | None \<Rightarrow> map_of f2 k)"
    by blast
  have m3s: "map_of f3 k = Some (replicate (length t) v)" if "metadata_value h self k = Some v" for k v
    using m3' that by (simp add: n2)
  have m3n: "map_of f3 k = map_of f2 k" if "metadata_value h self k = None" for k
    using m3' that by simp
  have other: "map_of f2 k = map_of sm k" if "k \<noteq> ''time_hour''" "k \<noteq> ''time_norm''" for k
    using that by (simp add: f2_def f1_def update_conv')
  have none: "map_of f2 ''age'' = None" "map_of f2 ''male'' = None"
    using age male by (simp_all add: other map_of_eq_None_iff)
  have mv: "castable v" if "metadata_value h self k = Some v" "k = ''age'' \<or> k = ''male''" for k v
  proof -
    from that(1) obtain a d where a: "metadata self = Some a" "a < length h" "h ! a = Dict d"
      "map_of d k = Some v"
      by (auto simp: metadata_value_def split: option.splits if_splits obj.splits)
    with md have "(case map_of d ''age'' of None \<Rightarrow> True | Some v \<Rightarrow> castable v)"
      "(case map_of d ''male'' of None \<Rightarrow> True | Some v \<Rightarrow> castable v)"
      by (simp_all add: metadata_ready_def)
    with that(2) a(4) show ?thesis by auto
  qed
  have cast: "list_all castable col"
    if c: "map_of (downcast ext f3) k = Some col" and k: "k = ''age'' \<or> k = ''male''" for k col
  proof (cases "metadata_value h self k")
    case None
    from k none have "map_of f2 k = None" by auto
    with c show ?thesis by (simp add: map_of_downcast m3n [OF None])
  next
    case (Some v)
    from c have "col = replicate (length t) (downcast_cell ext v)"
      by (simp add: map_of_downcast m3s [OF Some] downcast_column_replicate)
    with mv [OF Some k] show ?thesis
      by (simp add: list_all_iff castable_downcast_cell)
  qed
  have "\<exists>f4. column_astype_int ext ''age'' (downcast ext f3) = Inr f4
            \<and> (\<forall>k'. k' \<noteq> ''age'' \<longrightarrow> map_of f4 k' = map_of (downcast ext f3) k')"
  proof (rule column_astype_int_ok)
    fix col assume "map_of (downcast ext f3) ''age'' = Some col"
    then show "list_all castable col" by (rule cast) simp
  qed
  then obtain f4 where
    f4: "column_astype_int ext ''age'' (downcast ext f3) = Inr f4"
    and m4: "\<forall>k'. k' \<noteq> ''age'' \<longrightarrow> map_of f4 k' = map_of (downcast ext f3) k'"
    by blast
  have "\<exists>f5. column_astype_int ext ''male'' f4 = Inr f5
            \<and> (\<forall>k'. k' \<noteq> ''male'' \<longrightarrow> map_of f5 k' = map_of f4 k')"
  proof (rule column_astype_int_ok)
    fix col assume "map_of f4 ''male'' = Some col"
    with m4 have "map_of (downcast ext f3) ''male'' = Some col" by simp
    then show "list_all castable col" by (rule cast) simp
  qed
  then obtain f5 where
    f5: "column_astype_int ext ''male'' f4 = Inr f5"
    and m5: "\<forall>k'. k' \<noteq> ''male'' \<longrightarrow> map_of f5 k' = map_of f4 k'"
    by blast
  have fin: "finalize ext h self t sm = Inr (sort_index f5)"
    using len t f3 f4 f5 by (simp add: finalize_def Let_def f1_def [symmetric] f2_def [symmetric])
  have key: "map_of (sort_index f5) k = map_option (downcast_column ext) (map_of f3 k)"
    if "k \<noteq> ''age''" "k \<noteq> ''male''" for k
    using that m5 m4 by (simp add: map_of_sort_index map_of_downcast)
  have a: "map_of (sort_index f5) k = Some (replicate (length t) (downcast_cell ext v))"
    if "k \<noteq> ''age''" "k \<noteq> ''male''" "metadata_value h self k = Some v" for k v
    using that by (simp add: key m3s downcast_column_replicate)
  have b: "map_of (sort_index f5) k = map_option (downcast_column ext) (map_of sm k)"
    if "k \<noteq> ''age''" "k \<noteq> ''male''" "k \<noteq> ''time_hour''" "k \<noteq> ''time_norm''"
      "metadata_value h self k = None" for k
    using that by (simp add: key m3n other)
  from fin a b show ?thesis by blast
qed

lemma feature_keys_std: "feature_keys c = ''std'' # tl (feature_keys c)"
  by (simp add: feature_keys_def)

lemma ch_type_name_inj: "ch_type_name c @ ''_'' @ k = ch_type_name c' @ ''_'' @ k' \<Longrightarrow> c = c'"
  by (cases c; cases c') simp_all

lemma map_of_concat_nth:
  assumes "i < length ts" and "map_of (ts ! i) k = Some v"
    and "\<And>j. j < i \<Longrightarrow> k \<notin> set (map fst (ts ! j))"
  shows "map_of (concat ts) k = Some v"
  using assms
proof (induction ts arbitrary: i)
  case Nil
  then show ?case by simp
next
  case (Cons t ts)
  show ?case
  proof (cases i)
    case 0
    with Cons.prems(2) show ?thesis by simp
  next
    case (Suc i')
    from Cons.prems(3) [of 0] Suc have "map_of t k = None"
      by (simp add: map_of_eq_None_iff)
    moreover have "map_of (concat ts) k = Some v"
    proof (rule Cons.IH)
      show "i' < length ts" using Cons.prems(1) Suc by simp
      show "map_of (ts ! i') k = Some v" using Cons.prems(2) Suc by simp
      show "k \<notin> set (map fst (ts ! j))" if "j < i'" for j
        using Cons.prems(3) [of "Suc j"] that Suc by simp
    qed
    ultimately show ?thesis by (simp add: map_add_def)
  qed
qed

lemma nrows_rows: "rows n f \<Longrightarrow> f \<noteq> [] \<Longrightarrow> nrows f = n"
  by (cases f) (auto simp: nrows_def rows_def)

lemma nrows_append: "f \<noteq> [] \<Longrightarrow> nrows (f @ g) = nrows f"
  by (cases f) (auto simp: nrows_def)

lemma two_elements: "2 \<le> length xs \<Longrightarrow> \<exists>a b r. xs = a # b # r"
proof (cases xs)
  case Nil
  assume "2 \<le> length xs"
  with Nil show ?thesis by simp
next
  case (Cons a rest)
  assume "2 \<le> length xs"
  with Cons show ?thesis by (cases rest) simp_all
qed

lemma fit_features_ready:
  assumes "fit_ready ext h self n"
  shows "\<exists>f. fit_features ext h self = Inr f
             \<and> (\<forall>k v. k \<noteq> ''age'' \<longrightarrow> k \<noteq> ''male'' \<longrightarrow> metadata_value h self k = Some v \<longrightarrow>
                   map_of f k = Some (replicate n (downcast_cell ext v)))
             \<and> (\<forall>i. i < length (ch_types self) \<longrightarrow>
                   metadata_value h self (ch_type_name (ch_types self ! i) @ ''_std'') = None \<longrightarrow>
                   map_of f (ch_type_name (ch_types self ! i) @ ''_std'')
                     = Some (downcast_column ext
                               (map (\<lambda>e. PFloat (std_ddof1_row e)) (epochs_of ext self i))))"
proof -
  define cts where "cts = ch_types self"
  define ics where "ics = enumerate 0 cts"
  define tables where
    "tables = map (\<lambda>ic. channel_table ext (sf self) (snd ic) (data self ! fst ic)) ics"
  define feats where "feats = concat tables"
  from assms have r: "cts \<noteq> []" "distinct cts" "length cts \<le> length (data self)"
    "2 \<le> length (welch_freqs ext (sf self) (nat \<lfloor>5 * sf self\<rfloor>))" "0 < n"
    "\<And>i. i < length cts \<Longrightarrow> length (epochs_of ext self i) = n"
    "metadata_ready h self"
    by (simp_all add: fit_ready_def cts_def list_all_iff)
  from r(4) obtain f0 f1 fs where
    fr: "welch_freqs ext (sf self) (nat \<lfloor>5 * sf self\<rfloor>) = f0 # f1 # fs"
    using two_elements by blast
  have lics: "length ics = length cts" by (simp add: ics_def)
  have nth_ics: "ics ! i = (i, cts ! i)" if "i < length cts" for i
    using that by (simp add: ics_def nth_enumerate_eq)
  have idx: "\<forall>ic \<in> set ics. fst ic < length (data self)"
    using r(3) by (auto simp: ics_def in_set_enumerate_eq)
  have ne: "ics \<noteq> []" using r(1) lics by auto
  have last: "fst (last ics) = length cts - 1"
    using ne nth_ics [of "length cts - 1"] r(1) by (simp add: last_conv_nth lics)
  have calc: "calculate_features ext self ics ([], [])
                = Inr (channel_times ext self (length cts - 1), tables)"
    using calculate_features_eq [OF fr idx, of "[]" "[]"] ne by (simp add: tables_def last)
  have tab: "tables ! i = channel_table ext (sf self) (cts ! i) (data self ! i)"
    if "i < length cts" for i
    using that by (simp add: tables_def lics nth_ics)
  have ltab: "length tables = length cts" by (simp add: tables_def lics)
  have trows: "rows n (tables ! i)" if "i < length cts" for i
    using channel_table_props(3) [OF fr, where c = "cts ! i" and x = "data self ! i"] r(6) [OF that] that
    by (simp add: tab epochs_of_def)
  have tkeys: "map fst (tables ! i) = map (\<lambda>k. ch_type_name (cts ! i) @ ''_'' @ k) (feature_keys (cts ! i))"
    if "i < length cts" for i
    using channel_table_props(2) [OF fr, where c = "cts ! i" and x = "data self ! i"] that by (simp add: tab)
  have tstd: "map_of (tables ! i) (ch_type_name (cts ! i) @ ''_std'')
                = Some (map (\<lambda>e. PFloat (std_ddof1_row e)) (epochs_of ext self i))"
    if "i < length cts" for i
    using channel_table_props(4) [OF fr, where c = "cts ! i" and x = "data self ! i"] that
    by (simp add: tab epochs_of_def)
  have "\<forall>f \<in> set tables. rows n f"
    using trows by (auto simp: in_set_conv_nth ltab)
  moreover have "tables \<noteq> []" using r(1) ltab by auto
  ultimately have cc: "concat_frames tables = Inr feats"
    unfolding feats_def by (intro concat_frames_rows)
  have frows: "rows n feats"
    using \<open>\<forall>f \<in> set tables. rows n f\<close> by (auto simp: feats_def rows_def list_all_iff)
  have fkeys: "map fst feats = base_names cts"
    using calculate_features_names [OF calc] concat_frames_keys [OF cc] by (simp add: ics_def)
  have fne: "feats \<noteq> []"
  proof -
    have "tables ! 0 \<noteq> []" using tkeys [of 0] r(1) feature_keys_std [of "cts ! 0"]
      by (metis length_greater_0_conv list.distinct(1) list.map_disc_iff)
    moreover have "tables ! 0 \<in> set tables" using \<open>tables \<noteq> []\<close> by simp
    ultimately show ?thesis by (auto simp: feats_def)
  qed
  have sub: "set (map fst feats) \<subseteq> set (base_names [EEG, EOG, EMG])"
    using base_names_subset [of cts] by (simp only: fkeys)
  define sm where
    "sm = feats
          @ map (\<lambda>(k, col). (k @ ''_c5min_norm'',
                   map PFloat (robust_scale (5, 95) (spec_centered_mean (map to_float col))))) feats
          @ map (\<lambda>(k, col). (k @ ''_p5min_norm'',
                   map PFloat (robust_scale (5, 95) (spec_past_mean (map to_float col))))) feats"
  have smooth: "smooth feats = Inr sm"
    unfolding sm_def using sub by (rule smooth_base)
  have nsm: "nrows sm = n"
    using fne frows by (simp add: sm_def nrows_append nrows_rows)
  have lt: "length (channel_times ext self (length cts - 1)) = n"
    using r(6) [of "length cts - 1"] r(1)
    by (simp add: channel_times_def epochs_of_def sliding_window_lengths)
  have tne: "channel_times ext self (length cts - 1) \<noteq> []"
    using lt r(5) by auto
  have long: "6 \<le> length k" if "k \<in> set (map fst sm)" for k
  proof -
    from that smooth_keys [OF smooth] have
      "k \<in> set (map fst feats) \<or> (\<exists>k' \<in> set (map fst feats). k = k' @ ''_c5min_norm'')
       \<or> (\<exists>k' \<in> set (map fst feats). k = k' @ ''_p5min_norm'')"
      by auto
    moreover have "6 \<le> length k'" if "k' \<in> set (map fst feats)" for k'
      using that sub base_name_shape [of k'] by blast
    ultimately show ?thesis by auto
  qed
  have age: "''age'' \<notin> set (map fst sm)" using long [of "''age''"] by auto
  have male: "''male'' \<notin> set (map fst sm)" using long [of "''male''"] by auto
  from finalize_ready [OF _ tne r(7) age male, of ext] lt nsm obtain f where
    fin: "finalize ext h self (channel_times ext self (length cts - 1)) sm = Inr f"
    and fa: "\<forall>k v. k \<noteq> ''age'' \<longrightarrow> k \<noteq> ''male'' \<longrightarrow> metadata_value h self k = Some v \<longrightarrow>
               map_of f k = Some (replicate n (downcast_cell ext v))"
    and fb: "\<forall>k. k \<noteq> ''age'' \<longrightarrow> k \<noteq> ''male'' \<longrightarrow> k \<noteq> ''time_hour'' \<longrightarrow> k \<noteq> ''time_norm'' \<longrightarrow>
               metadata_value h self k = None \<longrightarrow>
               map_of f k = map_option (downcast_column ext) (map_of sm k)"
    by auto
  have ff: "fit_features ext h self = Inr f"
    using calc cc smooth fin by (simp add: fit_features_def ics_def cts_def)
  have std: "map_of f (ch_type_name (cts ! i) @ ''_std'')
               = Some (downcast_column ext (map (\<lambda>e. PFloat (std_ddof1_row e)) (epochs_of ext self i)))"
    if i: "i < length cts"
      and mv: "metadata_value h self (ch_type_name (cts ! i) @ ''_std'') = None" for i
  proof -
    have "ch_type_name (cts ! i) @ ''_std'' \<notin> set (map fst (tables ! j))" if "j < i" for j
    proof
      assume "ch_type_name (cts ! i) @ ''_std'' \<in> set (map fst (tables ! j))"
      with tkeys [of j] that i obtain k where
        "ch_type_name (cts ! i) @ ''_'' @ ''std'' = ch_type_name (cts ! j) @ ''_'' @ k"
        by auto
      then have "cts ! i = cts ! j" by (rule ch_type_name_inj)
      with r(2) that i show False by (simp add: nth_eq_iff_index_eq)
    qed
    with map_of_concat_nth [of i tables "ch_type_name (cts ! i) @ ''_std''", OF _ tstd [OF i]] i ltab
    have "map_of feats (ch_type_name (cts ! i) @ ''_std'')
            = Some (map (\<lambda>e. PFloat (std_ddof1_row e)) (epochs_of ext self i))"
      by (simp add: feats_def)
    then have "map_of sm (ch_type_name (cts ! i) @ ''_std'')
            = Some (map (\<lambda>e. PFloat (std_ddof1_row e)) (epochs_of ext self i))"
      by (simp add: sm_def map_add_def)
    moreover have "ch_type_name (cts ! i) @ ''_std'' \<noteq> ''age''"
      "ch_type_name (cts ! i) @ ''_std'' \<noteq> ''male''"
      "ch_type_name (cts ! i) @ ''_std'' \<noteq> ''time_hour''"
      "ch_type_name (cts ! i) @ ''_std'' \<noteq> ''time_norm''"
      by (cases "cts ! i"; simp)+
    ultimately show ?thesis using fb mv by simp
  qed
  from ff fa std show ?thesis unfolding cts_def by blast
qed

subsection \<open>Fit on the five-minute recording\<close>

lemma length_epochs:
  "length (snd (sliding_window x sfreq w))
     = (if nat \<lfloor>w * sfreq\<rfloor> = 0 then 0 else length x div nat \<lfloor>w * sfreq\<rfloor>)"
  by (simp add: sliding_window_def Let_def)

lemma five_minutes_ready:
  assumes "filter_data ext = (\<lambda>x s l u. g x)" and "\<And>x. length (g x) = length x"
    and "welch_freqs ext = welch_freqs stub_ext"
    and "metadata_ready h (five_minutes md)"
  shows "fit_ready ext h (five_minutes md) 10"
  using assms
  by (simp add: fit_ready_def five_minutes_def epochs_of_def length_epochs stub_ext_def)

lemma stub_ready: "fit_ready stub_ext [] (five_minutes None) 10"
  by (rule five_minutes_ready) (simp_all add: stub_ext_def metadata_ready_def five_minutes_def)

lemma nan_ready: "fit_ready nan_filter_ext [] (five_minutes None) 10"
  by (rule five_minutes_ready [where g = "map (\<lambda>v. None)"])
     (simp_all add: nan_filter_ext_def stub_ext_def metadata_ready_def five_minutes_def)

lemma md_ready: "fit_ready stub_ext metadata_heap (five_minutes (Some 0)) 10"
  by (rule five_minutes_ready)
     (simp_all add: stub_ext_def metadata_ready_def five_minutes_def metadata_heap_def castable_def)


lemma fit_of_features:
  "fit_features ext h self = Inr f \<Longrightarrow>
     fit ext h self
       = (h @ [Frame f], self\<lparr>features := Some (length h), feature_name := Some (map fst f)\<rparr>, Inr ())"
  by (simp add: fit_def alloc_def)

theorem fit_columns_sorted_witness:
  "fit_ready stub_ext [] (five_minutes None) 10
   \<and> (\<exists>f. fit stub_ext [] (five_minutes None)
              = ([Frame f],
                 (five_minutes None)\<lparr>features := Some 0, feature_name := Some (map fst f)\<rparr>,
                 Inr ())
            \<and> sorted (map fst f)
            \<and> map fst f = column_order [EEG] [])"
proof -
  from fit_features_ready [OF stub_ready] obtain f
    where f: "fit_features stub_ext [] (five_minutes None) = Inr f" by blast
  have fit: "fit stub_ext [] (five_minutes None)
               = ([Frame f],
                  (five_minutes None)\<lparr>features := Some 0, feature_name := Some (map fst f)\<rparr>,
                  Inr ())"
    using fit_of_features [OF f] by simp
  from fit_columns_sorted [OF fit] have "sorted (map fst f)"
    and "map fst f = column_order (ch_types (five_minutes None)) (metadata_keys [] (five_minutes None))"
    by auto
  then have "sorted (map fst f) \<and> map fst f = column_order [EEG] []"
    by (simp add: five_minutes_def metadata_keys_def)
  with fit stub_ready show ?thesis by blast
qed

lemma float_None [simp]:
  "fadd None b = None" "fadd a None = None" "fsub a None = None" "fmul None b = None"
  "fdiv None b = None" "fsqrt None = None"
  by (simp_all add: fadd_def fsub_def fmul_def fdiv_def fsqrt_def split: option.splits)

lemma foldl_fadd_None [simp]: "foldl fadd None xs = None"
  by (induction xs) simp_all

lemma fsum_nan: "None \<in> set xs \<Longrightarrow> foldl fadd a xs = None"
proof (induction xs arbitrary: a)
  case Nil
  then show ?case by simp
next
  case (Cons x xs)
  show ?case
  proof (cases "x = None")
    case True
    then show ?thesis by simp
  next
    case False
    with Cons.prems have "None \<in> set xs" by auto
    then show ?thesis by (simp add: Cons.IH)
  qed
qed

lemma std_nan:
  assumes "None \<in> set xs"
  shows "std_ddof1_row xs = None"
proof -
  have m: "fmean xs = None"
    using assms by (simp add: fmean_def fsum_def fsum_nan)
  have "None \<in> set (map (\<lambda>x. fmul (fsub x None) (fsub x None)) xs)"
    using assms by (auto simp: image_iff)
  then have "fsum (map (\<lambda>x. fmul (fsub x None) (fsub x None)) xs) = None"
    by (simp only: fsum_def fsum_nan)
  then show ?thesis
    by (simp add: std_ddof1_row_def m)
qed

text \<open>
  C5 (as amended). fit does not check the filtered signal: when filtering leaves a NaN
  in epoch \<open>e\<close> of a channel, fit still succeeds, and the channel's \<open>std\<close> feature of
  that epoch in the feature table is NaN.
\<close>

theorem fit_propagates_nan:
  assumes "fit_ready ext h self n"
    and "i < length (ch_types self)" and "e < n"
    and "None \<in> set (epochs_of ext self i ! e)"
    and "metadata_value h self (ch_type_name (ch_types self ! i) @ ''_std'') = None"
  shows "\<exists>f. fit ext h self
               = (h @ [Frame f],
                  self\<lparr>features := Some (length h), feature_name := Some (map fst f)\<rparr>, Inr ())
            \<and> table_cell (Inr f) (ch_type_name (ch_types self ! i) @ ''_std'') e = Some (PFloat None)"
proof -
  from fit_features_ready [OF assms(1)] assms(2,5) obtain f
    where f: "fit_features ext h self = Inr f"
      and c: "map_of f (ch_type_name (ch_types self ! i) @ ''_std'')
                = Some (downcast_column ext
                          (map (\<lambda>e. PFloat (std_ddof1_row e)) (epochs_of ext self i)))"
    by blast
  from assms(1,2) have len: "length (epochs_of ext self i) = n"
    by (simp add: fit_ready_def list_all_iff)
  have "list_all is_float64 (map (\<lambda>e. PFloat (std_ddof1_row e)) (epochs_of ext self i))"
    by (simp add: list_all_iff)
  then have "downcast_column ext (map (\<lambda>e. PFloat (std_ddof1_row e)) (epochs_of ext self i))
               = map (\<lambda>e. PFloat (map_option (astype_float32 ext) (std_ddof1_row e)))
                     (epochs_of ext self i)"
    by (simp add: downcast_column_def comp_def)
  with c len assms(3) std_nan [OF assms(4)]
  have "table_cell (Inr f) (ch_type_name (ch_types self ! i) @ ''_std'') e = Some (PFloat None)"
    by (simp add: table_cell_def)
  with fit_of_features [OF f] show ?thesis by blast
qed

lemma chunks_0: "0 < k \<Longrightarrow> chunks m k xs ! 0 = take m xs"
  by (cases k) simp_all

lemma nan_epoch: "None \<in> set (epochs_of nan_filter_ext (five_minutes None) 0 ! 0)"
  by (simp add: epochs_of_def sliding_window_def Let_def nan_filter_ext_def stub_ext_def
        five_minutes_def chunks_0)

theorem fit_propagates_nan_witness:
  "fit_ready nan_filter_ext [] (five_minutes None) 10
   \<and> None \<in> set (epochs_of nan_filter_ext (five_minutes None) 0 ! 0)
   \<and> (\<exists>f. fit nan_filter_ext [] (five_minutes None)
              = ([Frame f],
                 (five_minutes None)\<lparr>features := Some 0, feature_name := Some (map fst f)\<rparr>,
                 Inr ())
            \<and> table_cell (Inr f) ''eeg_std'' 0 = Some (PFloat None))"
proof -
  have "metadata_value [] (five_minutes None) (ch_type_name (ch_types (five_minutes None) ! 0) @ ''_std'') = None"
    by (simp add: metadata_value_def five_minutes_def)
  from fit_propagates_nan [OF nan_ready _ _ nan_epoch this]
  show ?thesis using nan_ready nan_epoch by (simp add: five_minutes_def)
qed

lemma nan_cell:
  "table_cell (fit_features nan_filter_ext [] (five_minutes None)) ''eeg_std'' 0 = Some (PFloat None)"
proof -
  from fit_features_ready [OF nan_ready] obtain f
    where f: "fit_features nan_filter_ext [] (five_minutes None) = Inr f"
      and c: "\<forall>i. i < length (ch_types (five_minutes None)) \<longrightarrow>
                metadata_value [] (five_minutes None)
                  (ch_type_name (ch_types (five_minutes None) ! i) @ ''_std'') = None \<longrightarrow>
                map_of f (ch_type_name (ch_types (five_minutes None) ! i) @ ''_std'')
                  = Some (downcast_column nan_filter_ext
                            (map (\<lambda>e. PFloat (std_ddof1_row e))
                                 (epochs_of nan_filter_ext (five_minutes None) i)))"
    by blast
  from c [rule_format, of 0]
  have m: "map_of f ''eeg_std''
             = Some (downcast_column nan_filter_ext
                       (map (\<lambda>e. PFloat (std_ddof1_row e))
                            (epochs_of nan_filter_ext (five_minutes None) 0)))"
    by (simp add: five_minutes_def metadata_value_def)
  have len: "length (epochs_of nan_filter_ext (five_minutes None) 0) = 10"
    using nan_ready by (simp add: fit_ready_def five_minutes_def)
  have "list_all is_float64 (map (\<lambda>e. PFloat (std_ddof1_row e))
                                 (epochs_of nan_filter_ext (five_minutes None) 0))"
    by (simp add: list_all_iff)
  then have "downcast_column nan_filter_ext
               (map (\<lambda>e. PFloat (std_ddof1_row e)) (epochs_of nan_filter_ext (five_minutes None) 0))
             = map (\<lambda>e. PFloat (map_option (astype_float32 nan_filter_ext) (std_ddof1_row e)))
                   (epochs_of nan_filter_ext (five_minutes None) 0)"
    by (simp add: downcast_column_def comp_def)
  with m len std_nan [OF nan_epoch] show ?thesis
    by (simp add: table_cell_def f)
qed

lemma table_cell_Some_Inr: "table_cell r k e = Some v \<Longrightarrow> \<exists>f. r = Inr f"
  by (cases r) (simp_all add: table_cell_def)

text \<open>
  The claim as stated fails: on the five-minute recording, with a filter that returns
  NaN, fit raises nothing and the table holds NaN in \<open>eeg_std\<close>.
\<close>

theorem fit_nan_counterexample:
  "snd (init nan_filter_ext [] (flat_raw 100 30000) ''C4-M1'' None None None) = Inr (five_minutes None)
   \<and> filter_data nan_filter_ext (replicate 30000 (Some 0)) 100 0.4 30 = replicate 30000 None
   \<and> snd (snd (fit nan_filter_ext [] (five_minutes None))) = Inr ()
   \<and> table_cell (fit_features nan_filter_ext [] (five_minutes None)) ''eeg_std'' 0 = Some (PFloat None)"
proof -
  from table_cell_Some_Inr [OF nan_cell] obtain f
    where "fit_features nan_filter_ext [] (five_minutes None) = Inr f" by blast
  then have "snd (snd (fit nan_filter_ext [] (five_minutes None))) = Inr ()"
    by (simp add: fit_of_features)
  moreover have "snd (init nan_filter_ext [] (flat_raw 100 30000) ''C4-M1'' None None None)
                   = Inr (five_minutes None)"
    by (simp add: init_def init_raw_flat_eeg five_minutes_def)
  moreover have "filter_data nan_filter_ext (replicate 30000 (Some 0)) 100 0.4 30 = replicate 30000 None"
    by (simp add: nan_filter_ext_def stub_ext_def)
  ultimately show ?thesis using nan_cell by simp
qed

lemma validate_metadata_other_key:
  assumes "a < length h" and "h ! a = Dict d" and "k \<noteq> ''age''" and "k \<noteq> ''male''"
  shows "snd (validate_metadata ext (h[a := Dict (AList.update k v d)]) a)
           = snd (validate_metadata ext h a)"
proof -
  have m: "map_of (AList.update k v d) ''age'' = map_of d ''age''"
    "map_of (AList.update k v d) ''male'' = map_of d ''male''"
    using assms(3,4) by (simp_all add: update_conv')
  show ?thesis
    using assms(1,2)
    by (simp add: validate_metadata_def m Let_def split: option.splits sum.splits)
qed

text \<open>
  C9. A metadata key other than \<open>age\<close> and \<open>male\<close> has no influence on what the
  constructor returns or raises, whatever value it holds; and after a fit that runs
  through with \<open>n\<close> epochs, the feature table has a column under that key whose \<open>n\<close>
  cells all hold the metadata value (in single precision when it is a float).
\<close>

theorem other_metadata_keys_become_columns:
  assumes "k \<noteq> ''age''" and "k \<noteq> ''male''"
    and "a < length h0" and "h0 ! a = Dict d"
    and "fit_ready ext h self n" and "metadata_value h self k = Some v"
  shows "snd (init ext (h0[a := Dict (AList.update k v' d)]) r eeg_name eog_name emg_name (Some a))
           = snd (init ext h0 r eeg_name eog_name emg_name (Some a))
         \<and> (\<exists>f. fit ext h self
                   = (h @ [Frame f],
                      self\<lparr>features := Some (length h), feature_name := Some (map fst f)\<rparr>, Inr ())
                \<and> map_of f k = Some (replicate n (downcast_cell ext v)))"
proof -
  have "snd (validate_metadata ext (h0[a := Dict (AList.update k v' d)]) a)
          = snd (validate_metadata ext h0 a)"
    using assms(3,4,1,2) by (rule validate_metadata_other_key)
  then have i: "snd (init ext (h0[a := Dict (AList.update k v' d)]) r eeg_name eog_name emg_name (Some a))
                  = snd (init ext h0 r eeg_name eog_name emg_name (Some a))"
    by (auto simp: init_def split: prod.splits sum.splits)
  from fit_features_ready [OF assms(5)] assms(1,2,6) obtain f
    where "fit_features ext h self = Inr f"
      and "map_of f k = Some (replicate n (downcast_cell ext v))"
    by blast
  with fit_of_features [of ext h self f] i show ?thesis by blast
qed

theorem other_metadata_keys_become_columns_witness:
  "snd (init stub_ext [Dict [(''age'', PInt 29), (''male'', PBool True), (''weight'', PFloat (Some 70.5))]]
          (flat_raw 100 30000) ''C4-M1'' None None (Some 0))
     = Inr (five_minutes (Some 0))
   \<and> fst (init stub_ext [Dict [(''age'', PInt 29), (''male'', PBool True), (''weight'', PFloat (Some 70.5))]]
          (flat_raw 100 30000) ''C4-M1'' None None (Some 0))
     = metadata_heap
   \<and> fit_ready stub_ext metadata_heap (five_minutes (Some 0)) 10
   \<and> metadata_value metadata_heap (five_minutes (Some 0)) ''weight'' = Some (PFloat (Some 70.5))
   \<and> (\<exists>f. fit stub_ext metadata_heap (five_minutes (Some 0))
              = (metadata_heap @ [Frame f],
                 (five_minutes (Some 0))\<lparr>features := Some 1, feature_name := Some (map fst f)\<rparr>,
                 Inr ())
            \<and> map_of f ''weight'' = Some (replicate 10 (PFloat (Some 70.5))))"
proof -
  have i: "init stub_ext [Dict [(''age'', PInt 29), (''male'', PBool True), (''weight'', PFloat (Some 70.5))]]
             (flat_raw 100 30000) ''C4-M1'' None None (Some 0)
           = (metadata_heap, Inr (five_minutes (Some 0)))"
    by (simp add: init_def validate_metadata_def py_num_def py_int_def flt_def init_raw_flat_eeg
          metadata_heap_def five_minutes_def)
  have v: "metadata_value metadata_heap (five_minutes (Some 0)) ''weight'' = Some (PFloat (Some 70.5))"
    by (simp add: metadata_value_def metadata_heap_def five_minutes_def)
  have d: "(0::nat) < length metadata_heap"
    "metadata_heap ! 0 = Dict [(''age'', PInt 29), (''male'', PInt 1), (''weight'', PFloat (Some 70.5))]"
    by (simp_all add: metadata_heap_def)
  have c: "downcast_cell stub_ext (PFloat (Some 70.5)) = PFloat (Some 70.5)"
    by (simp add: downcast_cell_def stub_ext_def)
  from other_metadata_keys_become_columns [OF _ _ d md_ready v]
  show ?thesis using i v md_ready c by (simp add: metadata_heap_def)
qed

end
